theory Spec2Isabelle
  imports Complex_Main "HOL-Library.Sublist" "HOL-Library.AList"
begin

section \<open>Steerable pyramid in the frequency domain: data model\<close>

text \<open>
  The development follows \<^verbatim>\<open>Steerable_Pyramid_Freq\<close> of
  \<^verbatim>\<open>plenoptic/simulate/canonical_computations/steerable_pyramid_freq.py\<close>.
  Tensors of the numeric library are kept abstract (a type variable \<open>'t\<close> and a record
  of the library operations the class calls); the control flow of the class, its keys, its
  validation and its bookkeeping are modelled as written. Python exceptions are values of
  \<open>error\<close>, a result is \<open>error + 'a\<close> with \<open>Inl\<close> for a raise, and
  \<^verbatim>\<open>warnings.warn\<close> appends to a list of messages.
\<close>

datatype error =
    Exception string
  | AssertionError string
  | KeyError
  | IndexError
  | OverflowError
  | RuntimeError

text \<open>An entry of a \<^verbatim>\<open>scales\<close> or \<^verbatim>\<open>levels\<close> list is an int or a str.\<close>

datatype sel = SInt int | SStr string

text \<open>A key of a coefficient dictionary is a str or a 2-tuple \<^verbatim>\<open>(scale, band)\<close>.\<close>

datatype key = KStr string | KBand int int

datatype norm = Ortho | Backward

datatype dtype = Float32 | Float64 | Complex64 | Complex128

datatype height = Auto | Height int

definition residual_highpass :: string where
  "residual_highpass = ''residual_highpass''"

definition residual_lowpass :: string where
  "residual_lowpass = ''residual_lowpass''"

text \<open>\<^verbatim>\<open>range(n)\<close> for a Python int \<open>n\<close> (empty when \<open>n \<le> 0\<close>).\<close>

definition range_int :: "int \<Rightarrow> int list" where
  "range_int n = map int [0..<nat n]"

text \<open>
  The attributes of a pyramid object that \<^verbatim>\<open>forward\<close>, \<^verbatim>\<open>recon_pyr\<close> and
  \<^verbatim>\<open>steer_coeffs\<close> read. \<open>pyr_size\<close> is the only one written after construction
  (by \<^verbatim>\<open>forward\<close>).
\<close>

record 't pyramid =
  pyr_size :: "key \<rightharpoonup> nat \<times> nat"
  order :: int
  image_shape :: "nat \<times> nat"
  is_complex :: bool
  downsample :: bool
  tight_frame :: bool
  fft_norm :: norm
  num_scales :: int
  num_orientations :: int
  scales :: "sel list"
  lo0mask :: 't
  hi0mask :: 't
  anglemasks :: "'t list list"
  anglemasks_recon :: "'t list list"
  himasks :: "'t list"
  lomasks :: "'t list"
  loindices :: "((int \<times> int) \<times> (int \<times> int)) list"

section \<open>Construction\<close>

text \<open>
  Line 108 computes in double precision. A real number is rounded to the nearest double,
  ties to even: for \<open>2^e \<le> |x| < 2^(e+1)\<close> the doubles are the multiples of
  \<open>2^(e-52)\<close>. Overflow and subnormal numbers are left out; the values rounded here
  (an image dimension and its logarithm) are far from both.
\<close>

definition round_half_even :: "real \<Rightarrow> int" where
  "round_half_even r =
     (let f = \<lfloor>r\<rfloor>
      in if r - of_int f < 1 / 2 then f
         else if 1 / 2 < r - of_int f then f + 1
         else if even f then f else f + 1)"

definition float64 :: "real \<Rightarrow> real" where
  "float64 x =
     (if x = 0 then 0
      else (let u = 2 powr (of_int \<lfloor>log 2 \<bar>x\<bar>\<rfloor> - 52)
            in u * of_int (round_half_even (x / u))))"

text \<open>
  \<^verbatim>\<open>np.log2(n)\<close> on a positive Python int that fits a machine integer: the int is
  converted to a double and the logarithm is returned as a double, modelled as correctly
  rounded.
\<close>

definition np_log2 :: "nat \<Rightarrow> real" where
  "np_log2 n = float64 (log 2 (float64 (real n)))"

text \<open>
  \<^verbatim>\<open>max_ht = np.floor(np.log2(min(image_shape[0], image_shape[1]))) - 2\<close>.
  For a zero dimension \<^verbatim>\<open>np.log2\<close> gives \<^verbatim>\<open>-inf\<close>, modelled as \<open>None\<close>.
\<close>

definition max_ht :: "nat \<times> nat \<Rightarrow> int option" where
  "max_ht shp =
     (let m = min (fst shp) (snd shp)
      in if m = 0 then None else Some (\<lfloor>np_log2 m\<rfloor> - 2))"

text \<open>Python's \<^verbatim>\<open>int(x)\<close> on a float truncates towards zero.\<close>

definition py_int :: "real \<Rightarrow> int" where
  "py_int x = (if 0 \<le> x then \<lfloor>x\<rfloor> else \<lceil>x\<rceil>)"

text \<open>
  The numeric helpers the constructor calls to fill the masks: numpy itself and
  \<^verbatim>\<open>raised_cosine\<close>, \<^verbatim>\<open>interpolate1d\<close> of \<^verbatim>\<open>plenoptic.tools.signal\<close>,
  taken as parameters of the model. \<open>'g\<close> is a two-dimensional
  numpy array over the frequency grid, \<open>'v\<close> a one-dimensional lookup table.
\<close>

record ('g, 'v, 't) numerics =
  polar_grid :: "nat \<times> nat \<Rightarrow> 'g \<times> 'g"
    \<comment> \<open>lines 131-139: \<open>(angle, log_rad)\<close> of the image dimensions\<close>
  raised_cosine :: "int \<Rightarrow> 'v \<times> 'v"
    \<comment> \<open>\<^verbatim>\<open>raised_cosine(twidth, -twidth/2.0, np.array([0, 1]))\<close>\<close>
  v_sqrt :: "'v \<Rightarrow> 'v"
    \<comment> \<open>\<^verbatim>\<open>np.sqrt(Yrcos)\<close>\<close>
  v_compl :: "'v \<Rightarrow> 'v"
    \<comment> \<open>\<^verbatim>\<open>np.sqrt(1.0 - Yrcos**2)\<close>\<close>
  v_octave :: "'v \<Rightarrow> 'v"
    \<comment> \<open>\<^verbatim>\<open>Xrcos -= np.log2(2)\<close>\<close>
  ycosn :: "bool \<Rightarrow> int \<Rightarrow> int \<Rightarrow> 'v \<times> 'v"
    \<comment> \<open>lines 179-190: \<open>(Ycosn_forward, Ycosn_recon)\<close> of \<open>is_complex\<close>, \<open>order\<close>,
        \<open>num_orientations\<close>\<close>
  xcosn_rot :: "int \<Rightarrow> int \<Rightarrow> 'v"
    \<comment> \<open>\<^verbatim>\<open>Xcosn + np.pi*b/num_orientations\<close>\<close>
  interpolate1d :: "'g \<Rightarrow> 'v \<Rightarrow> 'v \<Rightarrow> 'g"
  g_crop :: "int \<times> int \<Rightarrow> int \<times> int \<Rightarrow> 'g \<Rightarrow> 'g"
    \<comment> \<open>\<^verbatim>\<open>a[lostart[0]:loend[0], lostart[1]:loend[1]]\<close>\<close>
  to_mask :: "'g \<Rightarrow> 't"
    \<comment> \<open>\<^verbatim>\<open>torch.tensor(a).unsqueeze(0)\<close>, cast to \<^verbatim>\<open>torch.float32\<close>\<close>

text \<open>\<^verbatim>\<open>np.ceil((d+0.5)/2)\<close> and \<^verbatim>\<open>np.ceil((d-0.5)/2)\<close>, as ints.\<close>

definition ceil_half_up :: "int \<Rightarrow> int" where
  "ceil_half_up d = \<lceil>(real_of_int d + 1 / 2) / 2\<rceil>"

definition ceil_half_down :: "int \<Rightarrow> int" where
  "ceil_half_down d = \<lceil>(real_of_int d - 1 / 2) / 2\<rceil>"

text \<open>
  The bounding box \<open>(lostart, loend)\<close> of the subsampled low-pass band for a spectrum
  of dimensions \<open>dims\<close> (lines 216-220).
\<close>

definition lo_box :: "int \<times> int \<Rightarrow> (int \<times> int) \<times> (int \<times> int)" where
  "lo_box dims =
     (let ctr = (ceil_half_up (fst dims), ceil_half_up (snd dims));
          lodims = (ceil_half_down (fst dims), ceil_half_down (snd dims));
          loctr = (ceil_half_up (fst lodims), ceil_half_up (snd lodims));
          lostart = (fst ctr - fst loctr, snd ctr - snd loctr);
          loend = (fst lostart + fst lodims, snd lostart + snd lodims)
      in (lostart, loend))"

text \<open>Length of the Python slice \<^verbatim>\<open>a[s:e]\<close> of a sequence of length \<open>n\<close>.\<close>

definition slice_len :: "int \<Rightarrow> int \<Rightarrow> int \<Rightarrow> int" where
  "slice_len n s e =
     (let s' = (if s < 0 then max (s + n) 0 else min s n);
          e' = (if e < 0 then max (e + n) 0 else min e n)
      in max (e' - s') 0)"

text \<open>The lists the scale loop of the constructor appends to.\<close>

record 't mask_lists =
  ml_anglemasks :: "'t list list"
  ml_anglemasks_recon :: "'t list list"
  ml_himasks :: "'t list"
  ml_lomasks :: "'t list"
  ml_loindices :: "((int \<times> int) \<times> (int \<times> int)) list"

text \<open>The loop variables that change from one scale to the next.\<close>

record ('g, 'v) scale_vars =
  sv_Xrcos :: 'v
  sv_angle :: 'g
  sv_log_rad :: 'g
  sv_dims :: "int \<times> int"
  sv_lodims :: "int \<times> int"

text \<open>
  One iteration of \<^verbatim>\<open>for i in range(self.num_scales)\<close> (lines 177-232). \<open>sv_dims\<close> is
  the variable \<open>dims\<close>, \<open>sv_lodims\<close> the shape of the mock spectrum \<open>lodft\<close>, whose
  values are random and never stored.
\<close>

definition init_scale ::
  "('g, 'v, 't) numerics \<Rightarrow> bool \<Rightarrow> bool \<Rightarrow> int \<Rightarrow> int \<Rightarrow> 'v \<Rightarrow> 'v \<Rightarrow>
   ('g, 'v) scale_vars \<times> 't mask_lists \<Rightarrow> ('g, 'v) scale_vars \<times> 't mask_lists" where
  "init_scale N cplx down ord nori Yrcos YIrcos st =
     (let sv = fst st; ml = snd st;
          Xrcos = v_octave N (sv_Xrcos sv);
          (Ycosn_forward, Ycosn_recon) = ycosn N cplx ord nori;
          himask = interpolate1d N (sv_log_rad sv) Yrcos Xrcos;
          am = map (\<lambda>b. to_mask N (interpolate1d N (sv_angle sv) Ycosn_forward
                                      (xcosn_rot N b nori))) (range_int nori);
          amr = map (\<lambda>b. to_mask N (interpolate1d N (sv_angle sv) Ycosn_recon
                                       (xcosn_rot N b nori))) (range_int nori);
          ml1 = ml\<lparr>ml_himasks := ml_himasks ml @ [to_mask N himask],
                   ml_anglemasks := ml_anglemasks ml @ [am],
                   ml_anglemasks_recon := ml_anglemasks_recon ml @ [amr]\<rparr>
      in if \<not> down then
           (let lomask = interpolate1d N (sv_log_rad sv) YIrcos Xrcos
            in (sv\<lparr>sv_Xrcos := Xrcos\<rparr>,
                ml1\<lparr>ml_lomasks := ml_lomasks ml1 @ [to_mask N lomask],
                    ml_loindices := ml_loindices ml1 @ [((0, 0), sv_dims sv)]\<rparr>))
         else
           (let dims = sv_lodims sv;
                (lostart, loend) = lo_box dims;
                log_rad = g_crop N lostart loend (sv_log_rad sv);
                angle = g_crop N lostart loend (sv_angle sv);
                lomask = interpolate1d N log_rad YIrcos Xrcos;
                lodims = (slice_len (fst dims) (fst lostart) (fst loend),
                          slice_len (snd dims) (snd lostart) (snd loend))
            in (\<lparr>sv_Xrcos = Xrcos, sv_angle = angle, sv_log_rad = log_rad,
                 sv_dims = dims, sv_lodims = lodims\<rparr>,
                ml1\<lparr>ml_lomasks := ml_lomasks ml1 @ [to_mask N lomask],
                    ml_loindices := ml_loindices ml1 @ [(lostart, loend)]\<rparr>)))"

text \<open>The loop itself: \<open>n\<close> iterations.\<close>

primrec init_scales ::
  "('g, 'v, 't) numerics \<Rightarrow> bool \<Rightarrow> bool \<Rightarrow> int \<Rightarrow> int \<Rightarrow> 'v \<Rightarrow> 'v \<Rightarrow> nat \<Rightarrow>
   ('g, 'v) scale_vars \<times> 't mask_lists \<Rightarrow> ('g, 'v) scale_vars \<times> 't mask_lists" where
  "init_scales N cplx down ord nori Yrcos YIrcos 0 st = st"
| "init_scales N cplx down ord nori Yrcos YIrcos (Suc n) st =
     init_scales N cplx down ord nori Yrcos YIrcos n
       (init_scale N cplx down ord nori Yrcos YIrcos st)"

text \<open>
  \<^verbatim>\<open>self.scales\<close>: all scales, residuals included, from coarse to fine (lines 169-170).
\<close>

definition all_scales :: "int \<Rightarrow> sel list" where
  "all_scales n = [SStr residual_lowpass] @ rev (map SInt (range_int n)) @ [SStr residual_highpass]"

definition odd_warning :: string where
  "odd_warning = ''Reconstruction will not be perfect with odd-sized images''"

definition order_warning :: string where
  "order_warning = ''order must be an integer in the range [1,15]. Truncating.''"

definition twidth_warning :: string where
  "twidth_warning = ''twidth must be positive. Setting to 1.''"

definition height_error :: error where
  "height_error = Exception ''Cannot build pyramid higher than max_ht levels.''"

text \<open>
  \<^verbatim>\<open>Steerable_Pyramid_Freq.__init__\<close>. The result is the raise, or the warnings emitted
  (in order) and the object built. With a zero image dimension \<open>max_ht\<close> is
  \<^verbatim>\<open>-inf\<close>, and both \<^verbatim>\<open>int(max_ht)\<close> and the \<^verbatim>\<open>%d\<close> of the error message raise
  \<^verbatim>\<open>OverflowError\<close>.
\<close>

definition init ::
  "('g, 'v, 't) numerics \<Rightarrow> nat \<times> nat \<Rightarrow> height \<Rightarrow> int \<Rightarrow> real \<Rightarrow> bool \<Rightarrow> bool \<Rightarrow> bool \<Rightarrow>
   error + (string list \<times> 't pyramid)" where
  "init N shp ht ord0 twidth0 cplx down tight =
     (let w1 = (if fst shp mod 2 \<noteq> 0 \<or> snd shp mod 2 \<noteq> 0 then [odd_warning] else [])
      in case max_ht shp of
           None \<Rightarrow> Inl OverflowError
         | Some mh \<Rightarrow>
             (case (case ht of Auto \<Rightarrow> Inr mh
                             | Height h \<Rightarrow> if h > mh then Inl height_error else Inr h) of
                Inl e \<Rightarrow> Inl e
              | Inr ns \<Rightarrow>
                  (let w2 = (if ord0 > 15 \<or> ord0 \<le> 0 then [order_warning] else []);
                       ord = (if ord0 > 15 \<or> ord0 \<le> 0 then min (max ord0 1) 15 else ord0);
                       nori = ord + 1;
                       w3 = (if twidth0 \<le> 0 then [twidth_warning] else []);
                       twidth = py_int (if twidth0 \<le> 0 then 1 else twidth0);
                       dims = (int (fst shp), int (snd shp));
                       (angle, log_rad) = polar_grid N shp;
                       (Xrcos, Yrcos0) = raised_cosine N twidth;
                       Yrcos = v_sqrt N Yrcos0;
                       YIrcos = v_compl N Yrcos;
                       lo0 = interpolate1d N log_rad YIrcos Xrcos;
                       hi0 = interpolate1d N log_rad Yrcos Xrcos;
                       (sv, ml) = init_scales N cplx down ord nori Yrcos YIrcos (nat ns)
                          (\<lparr>sv_Xrcos = Xrcos, sv_angle = angle, sv_log_rad = log_rad,
                            sv_dims = dims, sv_lodims = dims\<rparr>,
                           \<lparr>ml_anglemasks = [], ml_anglemasks_recon = [], ml_himasks = [],
                            ml_lomasks = [], ml_loindices = []\<rparr>)
                   in Inr (w1 @ w2 @ w3,
                        \<lparr>pyr_size = Map.empty,
                         order = ord,
                         image_shape = shp,
                         is_complex = cplx,
                         downsample = down,
                         tight_frame = tight,
                         fft_norm = (if tight then Ortho else Backward),
                         num_scales = ns,
                         num_orientations = nori,
                         scales = all_scales ns,
                         lo0mask = to_mask N lo0,
                         hi0mask = to_mask N hi0,
                         anglemasks = ml_anglemasks ml,
                         anglemasks_recon = ml_anglemasks_recon ml,
                         himasks = ml_himasks ml,
                         lomasks = ml_lomasks ml,
                         loindices = ml_loindices ml\<rparr>))))"


section \<open>The tensor library\<close>

text \<open>
  The operations of \<^verbatim>\<open>torch\<close> and \<^verbatim>\<open>torch.fft\<close> the transform calls, on tensors of
  type \<open>'t\<close>. They are total here: a shape mismatch inside the library is not modelled.
\<close>

record 't torch =
  t_ndim :: "'t \<Rightarrow> nat"
    \<comment> \<open>\<^verbatim>\<open>len(x.shape)\<close>\<close>
  t_shape2 :: "'t \<Rightarrow> nat \<times> nat"
    \<comment> \<open>\<^verbatim>\<open>tuple(x.shape[-2:])\<close>\<close>
  t_is_complex :: "'t \<Rightarrow> bool"
    \<comment> \<open>\<^verbatim>\<open>x.dtype in complex_types\<close>\<close>
  t_fft2 :: "norm \<Rightarrow> 't \<Rightarrow> 't"
  t_ifft2 :: "norm \<Rightarrow> 't \<Rightarrow> 't"
  t_fftshift :: "'t \<Rightarrow> 't"
  t_ifftshift :: "'t \<Rightarrow> 't"
  t_mul :: "'t \<Rightarrow> 't \<Rightarrow> 't"
    \<comment> \<open>elementwise product, with broadcasting\<close>
  t_add :: "'t \<Rightarrow> 't \<Rightarrow> 't"
  t_smul :: "complex \<Rightarrow> 't \<Rightarrow> 't"
    \<comment> \<open>scalar times tensor\<close>
  t_sdiv :: "'t \<Rightarrow> real \<Rightarrow> 't"
    \<comment> \<open>tensor divided by a scalar\<close>
  t_real :: "'t \<Rightarrow> 't"
    \<comment> \<open>\<^verbatim>\<open>x.real\<close>\<close>
  t_crop :: "int \<times> int \<Rightarrow> int \<times> int \<Rightarrow> 't \<Rightarrow> 't"
    \<comment> \<open>\<^verbatim>\<open>x[:, :, a[0]:b[0], a[1]:b[1]]\<close>\<close>
  t_zeros_like :: "'t \<Rightarrow> dtype \<Rightarrow> 't"
  t_place :: "'t \<Rightarrow> int \<times> int \<Rightarrow> int \<times> int \<Rightarrow> 't \<Rightarrow> 't"
    \<comment> \<open>\<^verbatim>\<open>x[:, :, a[0]:b[0], a[1]:b[1]] = v\<close>, returning the updated \<open>x\<close>\<close>

text \<open>Python list indexing: negative indices count from the end, out of range raises.\<close>

definition py_nth :: "'a list \<Rightarrow> int \<Rightarrow> error + 'a" where
  "py_nth xs i =
     (if 0 \<le> i \<and> i < int (length xs) then Inr (xs ! nat i)
      else if i < 0 \<and> - int (length xs) \<le> i then Inr (xs ! nat (int (length xs) + i))
      else Inl IndexError)"

text \<open>Reading a dictionary (an association list in insertion order) at a key.\<close>

definition py_get :: "(key \<times> 'a) list \<Rightarrow> key \<Rightarrow> error + 'a" where
  "py_get d k = (case map_of d k of None \<Rightarrow> Inl KeyError | Some v \<Rightarrow> Inr v)"

section \<open>Forward transform\<close>

datatype scales_arg = Seq "sel list" | NotSeq

text \<open>\<^verbatim>\<open>[s for s in scales if isinstance(s, int)]\<close>\<close>

fun sel_ints :: "sel list \<Rightarrow> int list" where
  "sel_ints [] = []"
| "sel_ints (SInt i # ss) = i # sel_ints ss"
| "sel_ints (SStr s # ss) = sel_ints ss"

text \<open>
  The body of the loop over \<open>b\<close> (lines 362-382): the coefficient stored under
  \<open>(i, b)\<close> and the shape recorded in \<open>pyr_size\<close>.
\<close>

definition forward_band :: "'t torch \<Rightarrow> 't pyramid \<Rightarrow> 't \<Rightarrow> 't \<Rightarrow> 't \<Rightarrow> 't \<times> (nat \<times> nat)" where
  "forward_band T P lodft anglemask himask =
     (let complex_const = power_int (- \<i>) (order P);
          banddft = t_mul T (t_mul T (t_smul T complex_const lodft) anglemask) himask;
          band = t_ifft2 T (fft_norm P) (t_ifftshift T banddft)
      in if \<not> is_complex P then (t_real T band, t_shape2 T band)
         else (let band' = (if tight_frame P then t_sdiv T band (sqrt 2) else band)
               in (band', t_shape2 T band')))"

text \<open>\<^verbatim>\<open>for b in range(self.num_orientations)\<close> at scale \<open>i\<close>.\<close>

fun forward_bands ::
  "'t torch \<Rightarrow> 't pyramid \<Rightarrow> int \<Rightarrow> 't \<Rightarrow> 't \<Rightarrow> int list \<Rightarrow>
   (key \<times> 't) list \<times> (key \<rightharpoonup> nat \<times> nat) \<Rightarrow> error + ((key \<times> 't) list \<times> (key \<rightharpoonup> nat \<times> nat))" where
  "forward_bands T P i lodft himask [] st = Inr st"
| "forward_bands T P i lodft himask (b # bs) st =
     (case py_nth (anglemasks P) i of
        Inl e \<Rightarrow> Inl e
      | Inr row \<Rightarrow>
          (case py_nth row b of
             Inl e \<Rightarrow> Inl e
           | Inr anglemask \<Rightarrow>
               (let (c, shp) = forward_band T P lodft anglemask himask
                in forward_bands T P i lodft himask bs
                     (AList.update (KBand i b) c (fst st), (snd st)(KBand i b \<mapsto> shp)))))"

text \<open>
  One iteration of \<^verbatim>\<open>for i in range(self.num_scales)\<close> (lines 347-409). The state is
  \<open>(lodft, pyr_coeffs, pyr_size)\<close>. The local copies \<open>angle\<close> and \<open>log_rad\<close>, cropped
  in the loop and never read, are left out.
\<close>

definition forward_scale ::
  "'t torch \<Rightarrow> 't pyramid \<Rightarrow> sel list \<Rightarrow> int \<Rightarrow>
   't \<times> (key \<times> 't) list \<times> (key \<rightharpoonup> nat \<times> nat) \<Rightarrow>
   error + ('t \<times> (key \<times> 't) list \<times> (key \<rightharpoonup> nat \<times> nat))" where
  "forward_scale T P scs i st =
     (let lodft = fst st in
      case (if SInt i \<in> set scs then
              (case py_nth (himasks P) i of
                 Inl e \<Rightarrow> Inl e
               | Inr himask \<Rightarrow>
                   forward_bands T P i lodft himask (range_int (num_orientations P)) (snd st))
            else Inr (snd st)) of
        Inl e \<Rightarrow> Inl e
      | Inr cs \<Rightarrow>
          if \<not> downsample P then
            (case py_nth (lomasks P) i of
               Inl e \<Rightarrow> Inl e
             | Inr lomask \<Rightarrow>
                 (let lodft1 = t_mul T lodft lomask
                  in Inr (if fft_norm P \<noteq> Ortho then t_smul T 2 lodft1 else lodft1, cs)))
          else
            (case py_nth (loindices P) i of
               Inl e \<Rightarrow> Inl e
             | Inr (lostart, loend) \<Rightarrow>
                 (let lodft1 = t_crop T lostart loend lodft
                  in case py_nth (lomasks P) i of
                       Inl e \<Rightarrow> Inl e
                     | Inr lomask \<Rightarrow> Inr (t_mul T lodft1 lomask, cs))))"

fun forward_scales ::
  "'t torch \<Rightarrow> 't pyramid \<Rightarrow> sel list \<Rightarrow> int list \<Rightarrow>
   't \<times> (key \<times> 't) list \<times> (key \<rightharpoonup> nat \<times> nat) \<Rightarrow>
   error + ('t \<times> (key \<times> 't) list \<times> (key \<rightharpoonup> nat \<times> nat))" where
  "forward_scales T P scs [] st = Inr st"
| "forward_scales T P scs (i # is) st =
     (case forward_scale T P scs i st of
        Inl e \<Rightarrow> Inl e
      | Inr st' \<Rightarrow> forward_scales T P scs is st')"

text \<open>
  The high-pass residual (lines 336-342): the dictionary and \<open>pyr_size\<close> the scale loop
  starts from.
\<close>

definition forward_highpass ::
  "'t torch \<Rightarrow> 't pyramid \<Rightarrow> sel list \<Rightarrow> 't \<Rightarrow> (key \<times> 't) list \<times> (key \<rightharpoonup> nat \<times> nat)" where
  "forward_highpass T P scs imdft =
     (if SStr residual_highpass \<in> set scs then
        (let hi0dft = t_mul T imdft (hi0mask P);
             hi0 = t_ifft2 T (fft_norm P) (t_ifftshift T hi0dft)
         in ([(KStr residual_highpass, t_real T hi0)],
             (pyr_size P)(KStr residual_highpass \<mapsto> t_shape2 T (t_real T hi0))))
      else ([], pyr_size P))"

text \<open>
  The low-pass residual (lines 411-418), from the state the scale loop ends in: the object
  with its updated \<open>pyr_size\<close> and the dictionary returned.
\<close>

definition forward_lowpass ::
  "'t torch \<Rightarrow> 't pyramid \<Rightarrow> sel list \<Rightarrow> 't \<times> (key \<times> 't) list \<times> (key \<rightharpoonup> nat \<times> nat) \<Rightarrow>
   't pyramid \<times> (key \<times> 't) list" where
  "forward_lowpass T P scs st =
     (let lodft = fst st; coeffs = fst (snd st); sizes = snd (snd st)
      in if SStr residual_lowpass \<in> set scs then
           (let lo0 = t_ifft2 T (fft_norm P) (t_ifftshift T lodft)
            in (P\<lparr>pyr_size := sizes(KStr residual_lowpass \<mapsto> t_shape2 T (t_real T lo0))\<rparr>,
                AList.update (KStr residual_lowpass) (t_real T lo0) coeffs))
         else (P\<lparr>pyr_size := sizes\<rparr>, coeffs))"

text \<open>
  \<^verbatim>\<open>Steerable_Pyramid_Freq.forward\<close>: the raise, or the object with its updated
  \<open>pyr_size\<close> and the coefficient dictionary in insertion order.
\<close>

definition forward ::
  "'t torch \<Rightarrow> 't pyramid \<Rightarrow> 't \<Rightarrow> scales_arg \<Rightarrow> error + ('t pyramid \<times> (key \<times> 't) list)" where
  "forward T P x arg =
     (case arg of
        NotSeq \<Rightarrow> Inl (Exception ''scales must be a list!'')
      | Seq scales0 \<Rightarrow>
          (let scs = (if scales0 = [] then scales P else scales0);
               scale_ints = sel_ints scs
           in if scale_ints \<noteq> [] \<and>
                 \<not> (Max (set scale_ints) < num_scales P \<and> Min (set scale_ints) \<ge> 0)
              then Inl (AssertionError ''Scales must be within 0 and num_scales-1'')
              else if t_ndim T x \<noteq> 4
              then Inl (AssertionError ''Input must be batch of images of shape BxCxHxW'')
              else
                (let imdft = t_fftshift T (t_fft2 T (fft_norm P) x);
                     st0 = forward_highpass T P scs imdft;
                     lodft = t_mul T imdft (lo0mask P)
                 in case forward_scales T P scs (range_int (num_scales P)) (lodft, st0) of
                      Inl e \<Rightarrow> Inl e
                    | Inr st \<Rightarrow> Inr (forward_lowpass T P scs st))))"

section \<open>Reconstruction\<close>

text \<open>
  The \<^verbatim>\<open>levels\<close> argument is \<^verbatim>\<open>'all'\<close>, one int or str, or a list of them; the
  \<^verbatim>\<open>bands\<close> argument is \<^verbatim>\<open>'all'\<close>, one int, or a list of ints.
\<close>

datatype levels_arg = LOne sel | LList "sel list"

datatype bands_arg = BAll | BOne int | BList "int list"

text \<open>\<^verbatim>\<open>str.isdigit\<close> and \<^verbatim>\<open>int(str)\<close> on ASCII decimal strings.\<close>

definition is_digit :: "char \<Rightarrow> bool" where
  "is_digit c = (c \<in> set ''0123456789'')"

definition str_isdigit :: "string \<Rightarrow> bool" where
  "str_isdigit s = (s \<noteq> [] \<and> list_all is_digit s)"

definition digit_val :: "char \<Rightarrow> int" where
  "digit_val c = int (of_char c) - 48"

definition int_of_str :: "string \<Rightarrow> int" where
  "int_of_str s = foldl (\<lambda>acc c. 10 * acc + digit_val c) 0 s"

text \<open>
  \<^verbatim>\<open>[int(i) for i in levels if isinstance(i, int) or i.isdigit()]\<close>, one element at a time.
\<close>

fun lev_num :: "sel \<Rightarrow> int option" where
  "lev_num (SInt i) = Some i"
| "lev_num (SStr s) = (if str_isdigit s then Some (int_of_str s) else None)"

text \<open>\<^verbatim>\<open>_recon_levels_check\<close> (lines 572-597).\<close>

definition recon_levels_check :: "'t pyramid \<Rightarrow> levels_arg \<Rightarrow> error + sel list" where
  "recon_levels_check P levels =
     (case (if levels = LOne (SStr ''all'') then
              Inr ([SStr residual_highpass] @ map SInt (range_int (num_scales P))
                     @ [SStr residual_lowpass])
            else
              (let lv = (case levels of LOne l \<Rightarrow> [l] | LList ls \<Rightarrow> ls);
                   levs_nums = List.map_filter lev_num lv
               in if \<not> (\<forall>n \<in> set levs_nums. n \<ge> 0)
                  then Inl (AssertionError ''Level numbers must be non-negative.'')
                  else if \<not> (\<forall>n \<in> set levs_nums. n < num_scales P)
                  then Inl (AssertionError ''Level numbers must be in the range [0, num_scales-1]'')
                  else
                    (let levs_tmp = map SInt (sort levs_nums);
                         levs_tmp1 = (if SStr residual_highpass \<in> set lv
                                      then [SStr residual_highpass] @ levs_tmp else levs_tmp);
                         levs_tmp2 = (if SStr residual_lowpass \<in> set lv
                                      then levs_tmp1 @ [SStr residual_lowpass] else levs_tmp1)
                     in Inr levs_tmp2))) of
        Inl e \<Rightarrow> Inl e
      | Inr lv0 \<Rightarrow>
          (let lv1 = (if KStr residual_lowpass \<notin> dom (pyr_size P) \<and> SStr residual_lowpass \<in> set lv0
                      then butlast lv0 else lv0);
               lv2 = (if KStr residual_highpass \<notin> dom (pyr_size P) \<and> SStr residual_highpass \<in> set lv1
                      then tl lv1 else lv1)
           in Inr lv2))"

text \<open>\<^verbatim>\<open>_recon_bands_check\<close> (lines 620-628).\<close>

definition recon_bands_check :: "'t pyramid \<Rightarrow> bands_arg \<Rightarrow> error + int list" where
  "recon_bands_check P bands =
     (case bands of
        BAll \<Rightarrow> Inr (range_int (num_orientations P))
      | _ \<Rightarrow>
          (let bs = (case bands of BOne b \<Rightarrow> [b] | BList l \<Rightarrow> l | BAll \<Rightarrow> [])
           in if \<not> (\<forall>b \<in> set bs. b \<ge> 0)
              then Inl (AssertionError ''Error: band numbers must be larger than 0.'')
              else if \<not> (\<forall>b \<in> set bs. b < num_orientations P)
              then Inl (AssertionError ''Error: band numbers must be in the range [0, num_orientations-1]'')
              else Inr bs))"

text \<open>
  \<^verbatim>\<open>_recon_keys\<close> (lines 660-677); \<^verbatim>\<open>max_orientations\<close> is an optional int, and
  each band it excludes is warned about.
\<close>

definition band_ignored_warning :: string where
  "band_ignored_warning = ''You wanted a band in the reconstruction that is beyond max_orientation''"

definition level_keys :: "int list \<Rightarrow> sel \<Rightarrow> key list" where
  "level_keys bands level =
     (case level of SStr s \<Rightarrow> [KStr s] | SInt l \<Rightarrow> map (\<lambda>band. KBand l band) bands)"

definition recon_keys ::
  "'t pyramid \<Rightarrow> levels_arg \<Rightarrow> bands_arg \<Rightarrow> int option \<Rightarrow> error + (string list \<times> key list)" where
  "recon_keys P levels bands max_orientations =
     (case recon_levels_check P levels of
        Inl e \<Rightarrow> Inl e
      | Inr lv \<Rightarrow>
          (case recon_bands_check P bands of
             Inl e \<Rightarrow> Inl e
           | Inr bs \<Rightarrow>
               (let (ws, bs') = (case max_orientations of
                                   None \<Rightarrow> ([], bs)
                                 | Some m \<Rightarrow> (map (\<lambda>i. band_ignored_warning) (filter (\<lambda>i. i \<ge> m) bs),
                                              filter (\<lambda>i. i < m) bs))
                in Inr (ws, concat (map (level_keys bs') lv)))))"

text \<open>
  The loop over \<open>b\<close> of \<^verbatim>\<open>_recon_levels\<close> (lines 803-815), accumulating \<open>orientdft\<close>.
\<close>

fun recon_bands ::
  "'t torch \<Rightarrow> 't pyramid \<Rightarrow> (key \<times> 't) list \<Rightarrow> key list \<Rightarrow> int \<Rightarrow> 't \<Rightarrow> int list \<Rightarrow> 't \<Rightarrow>
   error + 't" where
  "recon_bands T P d rk scale himask [] orientdft = Inr orientdft"
| "recon_bands T P d rk scale himask (b # bs) orientdft =
     (if KBand scale b \<in> set rk then
        (case py_nth (anglemasks_recon P) scale of
           Inl e \<Rightarrow> Inl e
         | Inr row \<Rightarrow>
             (case py_nth row b of
                Inl e \<Rightarrow> Inl e
              | Inr anglemask \<Rightarrow>
                  (case py_get d (KBand scale b) of
                     Inl e \<Rightarrow> Inl e
                   | Inr coeffs0 \<Rightarrow>
                       (let coeffs = (if tight_frame P \<and> is_complex P
                                      then t_smul T (complex_of_real (sqrt 2)) coeffs0
                                      else coeffs0);
                            banddft0 = t_fftshift T (t_fft2 T (fft_norm P) coeffs);
                            complex_const = power_int \<i> (order P);
                            banddft = t_mul T (t_mul T (t_smul T complex_const banddft0) anglemask)
                                        himask
                        in recon_bands T P d rk scale himask bs (t_add T orientdft banddft)))))
      else recon_bands T P d rk scale himask bs orientdft)"

text \<open>
  \<^verbatim>\<open>_recon_levels\<close> (lines 784-835). The recursion on \<open>scale + 1\<close> is reached only after
  \<open>self._himasks[scale]\<close> has been read, which bounds it by the length of that list.
\<close>

function recon_levels ::
  "'t torch \<Rightarrow> 't pyramid \<Rightarrow> (key \<times> 't) list \<Rightarrow> key list \<Rightarrow> int \<Rightarrow> error + 't" where
  "recon_levels T P d rk scale =
     (if scale = num_scales P then
        (case py_get d (KStr residual_lowpass) of
           Inl e \<Rightarrow> Inl e
         | Inr lo \<Rightarrow>
             if KStr residual_lowpass \<in> set rk
             then Inr (t_fftshift T (t_fft2 T (fft_norm P) lo))
             else Inr (t_fft2 T (fft_norm P) (t_zeros_like T lo Float64)))
      else
        (case py_nth (himasks P) scale of
           Inl e \<Rightarrow> Inl e
         | Inr himask \<Rightarrow>
             (case py_get d (KBand scale 0) of
                Inl e \<Rightarrow> Inl e
              | Inr c0 \<Rightarrow>
                  (case recon_bands T P d rk scale himask (range_int (num_orientations P))
                          (t_zeros_like T c0 (if is_complex P then Complex64 else Float64)) of
                     Inl e \<Rightarrow> Inl e
                   | Inr orientdft \<Rightarrow>
                       (case py_nth (loindices P) scale of
                          Inl e \<Rightarrow> Inl e
                        | Inr box \<Rightarrow>
                            (case py_nth (lomasks P) scale of
                               Inl e \<Rightarrow> Inl e
                             | Inr lomask \<Rightarrow>
                                 (case recon_levels T P d rk (scale + 1) of
                                    Inl e \<Rightarrow> Inl e
                                  | Inr reslevdft0 \<Rightarrow>
                                      (let reslevdft = (if \<not> tight_frame P \<and> \<not> downsample P
                                                        then t_sdiv T reslevdft0 2 else reslevdft0);
                                           resdft = t_place T (t_zeros_like T c0 Complex64)
                                                      (fst box) (snd box) (t_mul T reslevdft lomask)
                                       in Inr (t_add T resdft orientdft)))))))))"
  by pat_completeness auto
termination
  by (relation "measure (\<lambda>(T, P, d, rk, scale). nat (int (length (himasks P)) - scale))")
     (auto simp: py_nth_def Let_def split: if_splits)

declare recon_levels.simps [simp del]

definition missing_scale_error :: error where
  "missing_scale_error = Exception ''scale not in pyr_coeffs! pyr_coeffs must include all scales''"

text \<open>
  The completeness check at the head of \<^verbatim>\<open>recon_pyr\<close> (lines 711-722): the first
  entry of \<^verbatim>\<open>self.scales\<close> with a key missing from the dictionary raises.
\<close>

fun check_scales :: "'t pyramid \<Rightarrow> key list \<Rightarrow> sel list \<Rightarrow> error option" where
  "check_scales P ks [] = None"
| "check_scales P ks (SStr s # rest) =
     (if KStr s \<notin> set ks then Some missing_scale_error else check_scales P ks rest)"
| "check_scales P ks (SInt s # rest) =
     (if \<exists>b \<in> set (range_int (num_orientations P)). KBand s b \<notin> set ks
      then Some missing_scale_error else check_scales P ks rest)"

text \<open>
  \<^verbatim>\<open>Steerable_Pyramid_Freq.recon_pyr\<close>: the raise, or the warnings emitted and the
  reconstructed tensor.
\<close>

definition recon_pyr ::
  "'t torch \<Rightarrow> 't pyramid \<Rightarrow> (key \<times> 't) list \<Rightarrow> levels_arg \<Rightarrow> bands_arg \<Rightarrow> real \<Rightarrow>
   error + (string list \<times> 't)" where
  "recon_pyr T P pyr_coeffs levels bands twidth =
     (case check_scales P (map fst pyr_coeffs) (scales P) of
        Some e \<Rightarrow> Inl e
      | None \<Rightarrow>
          (let ws = (if twidth \<le> 0 then [twidth_warning] else [])
           in case recon_keys P levels bands None of
                Inl e \<Rightarrow> Inl e
              | Inr (ws', rk) \<Rightarrow>
                  (case recon_levels T P pyr_coeffs rk 0 of
                     Inl e \<Rightarrow> Inl e
                   | Inr recondft \<Rightarrow>
                       (case (if KStr residual_highpass \<in> set rk then
                                (case py_get pyr_coeffs (KStr residual_highpass) of
                                   Inl e \<Rightarrow> Inl e
                                 | Inr hi \<Rightarrow>
                                     (let hidft = t_fftshift T (t_fft2 T (fft_norm P) hi)
                                      in Inr (t_add T (t_mul T recondft (lo0mask P))
                                                      (t_mul T hidft (hi0mask P)))))
                              else Inr (t_mul T recondft (lo0mask P))) of
                          Inl e \<Rightarrow> Inl e
                        | Inr outdft \<Rightarrow>
                            Inr (ws @ ws',
                                 t_real T (t_ifft2 T (fft_norm P) (t_ifftshift T outdft)))))))"

section \<open>Steering\<close>

text \<open>
  What \<^verbatim>\<open>steer_coeffs\<close> calls: the stacking of the oriented bands of one scale into a
  basis, \<^verbatim>\<open>steer\<close> of \<^verbatim>\<open>plenoptic.tools.signal\<close> (a parameter of the model) and
  the reshape of its result. \<open>'w\<close> is the type of a weight vector.
\<close>

record ('t, 'w) steer_tools =
  st_basis :: "'t list \<Rightarrow> 't"
    \<comment> \<open>\<^verbatim>\<open>torch.cat([c.squeeze().unsqueeze(-1) for c in cs], dim=-1)\<close>\<close>
  st_steer :: "'t \<Rightarrow> real \<Rightarrow> bool \<Rightarrow> 't \<times> 'w"
    \<comment> \<open>\<^verbatim>\<open>steer(basis, a, return_weights=True, even_phase=even_phase)\<close>\<close>
  st_reshape :: "'t \<Rightarrow> 't \<Rightarrow> 't"
    \<comment> \<open>\<^verbatim>\<open>res.reshape(c.shape)\<close>\<close>

text \<open>\<^verbatim>\<open>[pyr_coeffs[(i, j)] for j in js]\<close>\<close>

fun scale_bands :: "(key \<times> 't) list \<Rightarrow> int \<Rightarrow> int list \<Rightarrow> error + 't list" where
  "scale_bands d i [] = Inr []"
| "scale_bands d i (j # js) =
     (case py_get d (KBand i j) of
        Inl e \<Rightarrow> Inl e
      | Inr c \<Rightarrow> (case scale_bands d i js of Inl e \<Rightarrow> Inl e | Inr cs \<Rightarrow> Inr (c # cs)))"

text \<open>
  \<^verbatim>\<open>for j, a in enumerate(angles)\<close> (lines 874-878); \<open>j\<close> is the index of the first
  angle of the list still to do.
\<close>

fun steer_angles ::
  "('t, 'w) steer_tools \<Rightarrow> 't pyramid \<Rightarrow> (key \<times> 't) list \<Rightarrow> bool \<Rightarrow> int \<Rightarrow> 't \<Rightarrow> int \<Rightarrow>
   real list \<Rightarrow> (key \<times> 't) list \<times> (key \<times> 'w) list \<Rightarrow>
   error + ((key \<times> 't) list \<times> (key \<times> 'w) list)" where
  "steer_angles S P d even_phase i basis j [] out = Inr out"
| "steer_angles S P d even_phase i basis j (a # as) out =
     (let (res, steervect) = st_steer S basis a even_phase;
          resteering_weights = AList.update (KBand i j) steervect (snd out)
      in case py_get d (KBand i 0) of
           Inl e \<Rightarrow> Inl e
         | Inr c0 \<Rightarrow>
             steer_angles S P d even_phase i basis (j + 1) as
               (AList.update (KBand i (num_orientations P + j)) (st_reshape S res c0) (fst out),
                resteering_weights))"

text \<open>
  \<^verbatim>\<open>for i in range(num_scales)\<close> (lines 870-878). Concatenating an empty list of
  tensors raises.
\<close>

fun steer_scales ::
  "('t, 'w) steer_tools \<Rightarrow> 't pyramid \<Rightarrow> (key \<times> 't) list \<Rightarrow> real list \<Rightarrow> bool \<Rightarrow> int list \<Rightarrow>
   (key \<times> 't) list \<times> (key \<times> 'w) list \<Rightarrow>
   error + ((key \<times> 't) list \<times> (key \<times> 'w) list)" where
  "steer_scales S P d angles even_phase [] out = Inr out"
| "steer_scales S P d angles even_phase (i # is) out =
     (case scale_bands d i (range_int (num_orientations P)) of
        Inl e \<Rightarrow> Inl e
      | Inr cs \<Rightarrow>
          if cs = [] then Inl RuntimeError
          else
            (case steer_angles S P d even_phase i (st_basis S cs) 0 angles out of
               Inl e \<Rightarrow> Inl e
             | Inr out' \<Rightarrow> steer_scales S P d angles even_phase is out'))"

text \<open>
  \<^verbatim>\<open>Steerable_Pyramid_Freq.steer_coeffs\<close>: the raise, or
  \<open>(resteered_coeffs, resteering_weights)\<close>, each in insertion order.
\<close>

definition steer_coeffs ::
  "'t torch \<Rightarrow> ('t, 'w) steer_tools \<Rightarrow> 't pyramid \<Rightarrow> (key \<times> 't) list \<Rightarrow> real list \<Rightarrow> bool \<Rightarrow>
   error + ((key \<times> 't) list \<times> (key \<times> 'w) list)" where
  "steer_coeffs T S P pyr_coeffs angles even_phase =
     (case py_get pyr_coeffs (KBand 0 0) of
        Inl e \<Rightarrow> Inl e
      | Inr c00 \<Rightarrow>
          if t_is_complex T c00
          then Inl (AssertionError ''steering only implemented for real coefficients'')
          else steer_scales S P pyr_coeffs angles even_phase (range_int (num_scales P)) ([], []))"

section \<open>Conversion between dictionary and tensor\<close>

text \<open>
  For the two static conversion methods a tensor of shape \<open>(B, C, H, W)\<close> is its dtype,
  the triple \<open>(B, H, W)\<close> and the list of its \<open>C\<close> channels, each the values of the
  channel in a fixed order. Values are complex numbers (with zero imaginary part under a
  real dtype); rounding to a dtype's precision is not modelled.
\<close>

record tensor =
  tn_dtype :: dtype
  tn_bhw :: "nat \<times> nat \<times> nat"
  tn_chans :: "complex list list"

text \<open>\<^verbatim>\<open>complex_types = [torch.cdouble, torch.cfloat]\<close>\<close>

definition complex_types :: "dtype list" where
  "complex_types = [Complex128, Complex64]"

fun real_dtype :: "dtype \<Rightarrow> dtype" where
  "real_dtype Complex64 = Float32"
| "real_dtype Complex128 = Float64"
| "real_dtype d = d"

fun is_double :: "dtype \<Rightarrow> bool" where
  "is_double Float64 = True"
| "is_double Complex128 = True"
| "is_double d = False"

text \<open>Type promotion of \<^verbatim>\<open>torch.cat\<close> among these four dtypes.\<close>

definition promote :: "dtype \<Rightarrow> dtype \<Rightarrow> dtype" where
  "promote a b =
     (if a \<in> set complex_types \<or> b \<in> set complex_types
      then (if is_double a \<or> is_double b then Complex128 else Complex64)
      else (if is_double a \<or> is_double b then Float64 else Float32))"

text \<open>\<^verbatim>\<open>t[:, ch:(ch+1), ...]\<close> for \<open>ch \<ge> 0\<close>; a slice never raises.\<close>

definition tn_channel :: "tensor \<Rightarrow> nat \<Rightarrow> tensor" where
  "tn_channel t ch = t\<lparr>tn_chans := take 1 (drop ch (tn_chans t))\<rparr>"

text \<open>\<^verbatim>\<open>t.real\<close> and \<^verbatim>\<open>t.imag\<close>\<close>

definition tn_real :: "tensor \<Rightarrow> tensor" where
  "tn_real t = \<lparr>tn_dtype = real_dtype (tn_dtype t), tn_bhw = tn_bhw t,
               tn_chans = map (map (\<lambda>z. complex_of_real (Re z))) (tn_chans t)\<rparr>"

definition tn_imag :: "tensor \<Rightarrow> tensor" where
  "tn_imag t = \<lparr>tn_dtype = real_dtype (tn_dtype t), tn_bhw = tn_bhw t,
               tn_chans = map (map (\<lambda>z. complex_of_real (Im z))) (tn_chans t)\<rparr>"

text \<open>
  \<^verbatim>\<open>torch.cat(ts, dim=1)\<close>: raises \<^verbatim>\<open>RuntimeError\<close> on an empty list and when the
  other dimensions differ.
\<close>

definition tn_cat :: "tensor list \<Rightarrow> error + tensor" where
  "tn_cat ts =
     (case ts of
        [] \<Rightarrow> Inl RuntimeError
      | t # rest \<Rightarrow>
          if \<forall>u \<in> set rest. tn_bhw u = tn_bhw t
          then Inr \<lparr>tn_dtype = foldl promote (tn_dtype t) (map tn_dtype rest),
                    tn_bhw = tn_bhw t,
                    tn_chans = concat (map tn_chans ts)\<rparr>
          else Inl RuntimeError)"

text \<open>\<^verbatim>\<open>t[:, i, ...].unsqueeze(1)\<close>\<close>

definition tn_index :: "tensor \<Rightarrow> int \<Rightarrow> error + tensor" where
  "tn_index t i =
     (case py_nth (tn_chans t) i of
        Inl e \<Rightarrow> Inl e
      | Inr c \<Rightarrow> Inr (t\<lparr>tn_chans := [c]\<rparr>))"

text \<open>\<^verbatim>\<open>t.type(torch.float)\<close>: single precision real, the imaginary part dropped.\<close>

definition tn_to_float :: "tensor \<Rightarrow> tensor" where
  "tn_to_float t = \<lparr>tn_dtype = Float32, tn_bhw = tn_bhw t,
                   tn_chans = map (map (\<lambda>z. complex_of_real (Re z))) (tn_chans t)\<rparr>"

text \<open>
  \<^verbatim>\<open>torch.view_as_complex(rearrange(t[:, i:i+2, ...], 'b c h w -> b h w c').unsqueeze(1).contiguous())\<close>
  for \<open>i \<ge> 0\<close>: the slice must have exactly two channels and a real dtype, else
  \<^verbatim>\<open>RuntimeError\<close>.
\<close>

definition tn_pair_as_complex :: "tensor \<Rightarrow> nat \<Rightarrow> error + tensor" where
  "tn_pair_as_complex t i =
     (case take 2 (drop i (tn_chans t)) of
        [re, im] \<Rightarrow>
          if tn_dtype t \<in> set complex_types then Inl RuntimeError
          else Inr \<lparr>tn_dtype = (if is_double (tn_dtype t) then Complex128 else Complex64),
                    tn_bhw = tn_bhw t,
                    tn_chans = [map2 (\<lambda>a b. Complex (Re a) (Re b)) re im]\<rparr>
      | _ \<Rightarrow> Inl RuntimeError)"

text \<open>\<^verbatim>\<open>sub in s\<close> on strings.\<close>

primrec str_contains :: "string \<Rightarrow> string \<Rightarrow> bool" where
  "str_contains sub [] = (sub = [])"
| "str_contains sub (c # cs) = (prefix sub (c # cs) \<or> str_contains sub cs)"

text \<open>
  \<^verbatim>\<open>'residual' in k\<close>: a substring test on a str key, a membership test on a tuple of
  two ints.
\<close>

fun residual_in :: "key \<Rightarrow> bool" where
  "residual_in (KStr s) = str_contains ''residual'' s"
| "residual_in (KBand i b) = False"

text \<open>
  The loop over the keys for one channel (lines 463-471), giving
  \<open>(coeff_list_resid, coeff_list_bands)\<close>.
\<close>

fun pack_keys ::
  "(key \<times> tensor) list \<Rightarrow> bool \<Rightarrow> nat \<Rightarrow> key list \<Rightarrow> tensor list \<times> tensor list \<Rightarrow>
   error + (tensor list \<times> tensor list)" where
  "pack_keys d split_complex ch [] acc = Inr acc"
| "pack_keys d split_complex ch (k # ks) acc =
     (case py_get d k of
        Inl e \<Rightarrow> Inl e
      | Inr t \<Rightarrow>
          (let coeffs = tn_channel t ch
           in pack_keys d split_complex ch ks
                (if residual_in k then (fst acc @ [coeffs], snd acc)
                 else if tn_dtype coeffs \<in> set complex_types \<and> split_complex
                 then (fst acc, snd acc @ [tn_real coeffs, tn_imag coeffs])
                 else (fst acc, snd acc @ [coeffs]))))"

text \<open>The placement of the residuals around the bands of one channel (lines 474-479).\<close>

definition place_residuals :: "key list \<Rightarrow> tensor list \<Rightarrow> tensor list \<Rightarrow> error + tensor list" where
  "place_residuals pyr_keys resid bands =
     (if KStr residual_highpass \<in> set pyr_keys then
        (case py_nth resid 0 of
           Inl e \<Rightarrow> Inl e
         | Inr r0 \<Rightarrow>
             if KStr residual_lowpass \<in> set pyr_keys then
               (case py_nth resid 1 of
                  Inl e \<Rightarrow> Inl e
                | Inr r1 \<Rightarrow> Inr ([r0] @ bands @ [r1]))
             else Inr ([r0] @ bands))
      else if KStr residual_lowpass \<in> set pyr_keys then
        (case py_nth resid 0 of
           Inl e \<Rightarrow> Inl e
         | Inr r0 \<Rightarrow> Inr (bands @ [r0]))
      else Inr bands)"

text \<open>\<^verbatim>\<open>for ch in range(num_channels)\<close> (lines 460-481), extending \<open>coeff_list\<close>.\<close>

fun pack_channels ::
  "(key \<times> tensor) list \<Rightarrow> bool \<Rightarrow> key list \<Rightarrow> nat list \<Rightarrow> tensor list \<Rightarrow> error + tensor list" where
  "pack_channels d split_complex pyr_keys [] coeff_list = Inr coeff_list"
| "pack_channels d split_complex pyr_keys (ch # chs) coeff_list =
     (case pack_keys d split_complex ch pyr_keys ([], []) of
        Inl e \<Rightarrow> Inl e
      | Inr (resid, bands) \<Rightarrow>
          (case place_residuals pyr_keys resid bands of
             Inl e \<Rightarrow> Inl e
           | Inr bands' \<Rightarrow> pack_channels d split_complex pyr_keys chs (coeff_list @ bands')))"

definition concat_error :: error where
  "concat_error = Exception ''feature maps could not be concatenated into tensor.''"

text \<open>
  \<^verbatim>\<open>convert_pyr_to_tensor\<close>: the raise, or \<open>(pyr_tensor, pyr_info)\<close> with
  \<open>pyr_info = (num_channels, split_complex, pyr_keys)\<close>.
\<close>

definition convert_pyr_to_tensor ::
  "(key \<times> tensor) list \<Rightarrow> bool \<Rightarrow> error + (tensor \<times> (nat \<times> bool \<times> key list))" where
  "convert_pyr_to_tensor pyr_coeffs split_complex =
     (let pyr_keys = map fst pyr_coeffs
      in case py_nth pyr_coeffs 0 of
           Inl e \<Rightarrow> Inl e
         | Inr (k0, test_band) \<Rightarrow>
             (let num_channels = length (tn_chans test_band)
              in case pack_channels pyr_coeffs split_complex pyr_keys [0..<num_channels] [] of
                   Inl e \<Rightarrow> Inl e
                 | Inr coeff_list \<Rightarrow>
                     (case tn_cat coeff_list of
                        Inl e \<Rightarrow> Inl concat_error
                      | Inr pyr_tensor \<Rightarrow>
                          Inr (pyr_tensor, (num_channels, split_complex, pyr_keys)))))"

text \<open>
  The loop over the keys of \<^verbatim>\<open>convert_tensor_to_pyr\<close> for one channel (lines 532-546);
  the state is the running channel index \<open>i\<close> and the dictionary built so far.
\<close>

fun unpack_keys ::
  "tensor \<Rightarrow> bool \<Rightarrow> key list \<Rightarrow> nat \<times> (key \<times> tensor) list \<Rightarrow>
   error + (nat \<times> (key \<times> tensor) list)" where
  "unpack_keys pyr_tensor split_complex [] st = Inr st"
| "unpack_keys pyr_tensor split_complex (k # ks) st =
     (let i = fst st; pyr_coeffs = snd st
      in case (if residual_in k then
                 (case tn_index pyr_tensor (int i) of
                    Inl e \<Rightarrow> Inl e
                  | Inr b \<Rightarrow> Inr (tn_to_float b, i + 1))
               else if split_complex then
                 (case tn_pair_as_complex pyr_tensor i of
                    Inl e \<Rightarrow> Inl e
                  | Inr b \<Rightarrow> Inr (b, i + 2))
               else
                 (case tn_index pyr_tensor (int i) of
                    Inl e \<Rightarrow> Inl e
                  | Inr b \<Rightarrow> Inr (b, i + 1))) of
           Inl e \<Rightarrow> Inl e
         | Inr (band, i') \<Rightarrow>
             (case map_of pyr_coeffs k of
                None \<Rightarrow>
                  unpack_keys pyr_tensor split_complex ks (i', AList.update k band pyr_coeffs)
              | Some old \<Rightarrow>
                  (case tn_cat [old, band] of
                     Inl e \<Rightarrow> Inl e
                   | Inr joined \<Rightarrow>
                       unpack_keys pyr_tensor split_complex ks
                         (i', AList.update k joined pyr_coeffs))))"

fun unpack_channels ::
  "tensor \<Rightarrow> bool \<Rightarrow> key list \<Rightarrow> nat \<Rightarrow> nat \<times> (key \<times> tensor) list \<Rightarrow>
   error + (nat \<times> (key \<times> tensor) list)" where
  "unpack_channels pyr_tensor split_complex pyr_keys 0 st = Inr st"
| "unpack_channels pyr_tensor split_complex pyr_keys (Suc n) st =
     (case unpack_keys pyr_tensor split_complex pyr_keys st of
        Inl e \<Rightarrow> Inl e
      | Inr st' \<Rightarrow> unpack_channels pyr_tensor split_complex pyr_keys n st')"

text \<open>\<^verbatim>\<open>convert_tensor_to_pyr\<close>: the raise, or the dictionary.\<close>

definition convert_tensor_to_pyr ::
  "tensor \<Rightarrow> nat \<Rightarrow> bool \<Rightarrow> key list \<Rightarrow> error + (key \<times> tensor) list" where
  "convert_tensor_to_pyr pyr_tensor num_channels split_complex pyr_keys =
     (case unpack_channels pyr_tensor split_complex pyr_keys num_channels (0, []) of
        Inl e \<Rightarrow> Inl e
      | Inr st \<Rightarrow> Inr (snd st))"

text \<open>
  The round trip of the docstring:
  \<^verbatim>\<open>convert_tensor_to_pyr(pyr_tensor, *pyr_info)\<close> on the result of
  \<^verbatim>\<open>convert_pyr_to_tensor(pyr_coeffs, split_complex)\<close>.
\<close>

definition pack_unpack :: "(key \<times> tensor) list \<Rightarrow> bool \<Rightarrow> error + (key \<times> tensor) list" where
  "pack_unpack pyr_coeffs split_complex =
     (case convert_pyr_to_tensor pyr_coeffs split_complex of
        Inl e \<Rightarrow> Inl e
      | Inr (pyr_tensor, (num_channels, sc, pyr_keys)) \<Rightarrow>
          convert_tensor_to_pyr pyr_tensor num_channels sc pyr_keys)"

section \<open>The keys of a pyramid and a small concrete instance\<close>

text \<open>
  The keys a pyramid defines: the two residuals and every pair of a scale in
  \<open>0..num_scales-1\<close> and an orientation in \<open>0..num_orientations-1\<close>.
\<close>

definition pyramid_keys :: "'t pyramid \<Rightarrow> key list" where
  "pyramid_keys P =
     [KStr residual_highpass, KStr residual_lowpass] @
     concat (map (\<lambda>s. map (\<lambda>b. KBand s b) (range_int (num_orientations P)))
                 (range_int (num_scales P)))"

text \<open>
  An instance on which the definitions above can be evaluated: tensors, grids and lookup
  tables are integers, the Fourier transforms and shifts are the identity, masks multiply.
\<close>

definition demo_numerics :: "(int, int, int) numerics" where
  "demo_numerics =
     \<lparr>polar_grid = (\<lambda>shp. (1, 1)),
      raised_cosine = (\<lambda>tw. (tw, tw)),
      v_sqrt = (\<lambda>v. v),
      v_compl = (\<lambda>v. v),
      v_octave = (\<lambda>v. v),
      ycosn = (\<lambda>c ord nori. (1, 1)),
      xcosn_rot = (\<lambda>b nori. 1),
      interpolate1d = (\<lambda>g y x. g * y * x),
      g_crop = (\<lambda>a b g. g),
      to_mask = (\<lambda>g. g)\<rparr>"

definition demo_torch :: "int torch" where
  "demo_torch =
     \<lparr>t_ndim = (\<lambda>x. 4),
      t_shape2 = (\<lambda>x. (1, 1)),
      t_is_complex = (\<lambda>x. False),
      t_fft2 = (\<lambda>n x. x),
      t_ifft2 = (\<lambda>n x. x),
      t_fftshift = (\<lambda>x. x),
      t_ifftshift = (\<lambda>x. x),
      t_mul = (\<lambda>x y. x * y),
      t_add = (\<lambda>x y. x + y),
      t_smul = (\<lambda>c x. x),
      t_sdiv = (\<lambda>x r. x),
      t_real = (\<lambda>x. x),
      t_crop = (\<lambda>a b x. x),
      t_zeros_like = (\<lambda>x d. 0),
      t_place = (\<lambda>x a b v. v)\<rparr>"

definition demo_steer :: "(int, int) steer_tools" where
  "demo_steer =
     \<lparr>st_basis = sum_list,
      st_steer = (\<lambda>basis a even_phase. (basis, 1)),
      st_reshape = (\<lambda>res c. res)\<rparr>"

text \<open>
  The pyramid the constructor builds on this instance for a 16 by 16 image with height 1,
  order 1, transition width 1, real coefficients, no downsampling and no tight frame.
\<close>

definition demo_pyramid :: "int pyramid" where
  "demo_pyramid =
     \<lparr>pyr_size = Map.empty, order = 1, image_shape = (16, 16), is_complex = False,
      downsample = False, tight_frame = False, fft_norm = Backward, num_scales = 1,
      num_orientations = 2, scales = all_scales 1, lo0mask = 1, hi0mask = 1,
      anglemasks = [[1, 1]], anglemasks_recon = [[1, 1]], himasks = [1], lomasks = [1],
      loindices = [((0, 0), (16, 16))]\<rparr>"

text \<open>
  A complete real dictionary of one-channel, one-pixel tensors for a pyramid with one scale
  and two orientations.
\<close>

definition demo_plane :: "real \<Rightarrow> tensor" where
  "demo_plane r = \<lparr>tn_dtype = Float32, tn_bhw = (1, 1, 1), tn_chans = [[complex_of_real r]]\<rparr>"

definition demo_real_coeffs :: "(key \<times> tensor) list" where
  "demo_real_coeffs =
     [(KStr residual_highpass, demo_plane 1), (KBand 0 0, demo_plane 2),
      (KBand 0 1, demo_plane 3), (KStr residual_lowpass, demo_plane 4)]"

text \<open>What the constructor establishes about the attributes of the object: the list of
  scales and the lengths of the mask lists.\<close>

definition built :: "'t pyramid \<Rightarrow> bool" where
  "built P \<longleftrightarrow>
     scales P = all_scales (num_scales P)
   \<and> length (himasks P) = nat (num_scales P)
   \<and> length (lomasks P) = nat (num_scales P)
   \<and> length (loindices P) = nat (num_scales P)
   \<and> length (anglemasks P) = nat (num_scales P)
   \<and> length (anglemasks_recon P) = nat (num_scales P)
   \<and> (\<forall>r \<in> set (anglemasks P). length r = nat (num_orientations P))
   \<and> (\<forall>r \<in> set (anglemasks_recon P). length r = nat (num_orientations P))"

section \<open>Basic facts\<close>

lemma residual_names_distinct [simp]:
  "residual_highpass \<noteq> residual_lowpass" "residual_lowpass \<noteq> residual_highpass"
  by (simp_all add: residual_highpass_def residual_lowpass_def)

lemma range_int_simps: "range_int 0 = []" "range_int 1 = [0]" "range_int 2 = [0, 1]"
  by (simp_all add: range_int_def upt_rec)

lemma round_half_even_of_int [simp]: "round_half_even (of_int z) = z"
  by (simp add: round_half_even_def)

lemma round_half_even_ge: "\<lfloor>r\<rfloor> \<le> round_half_even r"
  by (simp add: round_half_even_def Let_def)

lemma round_half_even_le: "of_int (round_half_even r) \<le> r + 1 / 2"
proof -
  have fl: "of_int \<lfloor>r\<rfloor> \<le> r" by simp
  show ?thesis
  proof (cases "r - of_int \<lfloor>r\<rfloor> < 1 / 2")
    case True
    then have "round_half_even r = \<lfloor>r\<rfloor>" by (simp add: round_half_even_def Let_def)
    moreover from fl have "of_int \<lfloor>r\<rfloor> \<le> r + 1 / 2" by linarith
    ultimately show ?thesis by simp
  next
    case False
    then have "of_int \<lfloor>r\<rfloor> + 1 \<le> r + 1 / 2" by simp
    moreover have "round_half_even r \<le> \<lfloor>r\<rfloor> + 1"
      by (simp add: round_half_even_def Let_def)
    then have "real_of_int (round_half_even r) \<le> of_int \<lfloor>r\<rfloor> + 1"
      by (metis of_int_1 of_int_add of_int_le_iff)
    ultimately show ?thesis by linarith
  qed
qed

text \<open>The spacing of the doubles around \<open>x\<close>, for \<open>2^e \<le> |x| < 2^(e+1)\<close> with \<open>e \<le> 52\<close>.\<close>

lemma float64_scaled:
  assumes "x \<noteq> 0" and "\<lfloor>log 2 \<bar>x\<bar>\<rfloor> = e" and "e \<le> 52" and "n = nat (52 - e)"
  shows "float64 x = of_int (round_half_even (x * 2 ^ n)) / 2 ^ n"
proof -
  from assms(3,4) have "of_int e - 52 = - real n" by simp
  then have "2 powr (of_int e - 52) = (1::real) / 2 ^ n"
    by (simp add: powr_minus powr_realpow divide_simps)
  with assms(1,2) show ?thesis
    by (simp add: float64_def Let_def)
qed

lemma floor_log2_bounds:
  assumes "0 < x" and "2 ^ a \<le> x" and "x < 2 ^ (Suc a)"
  shows "\<lfloor>log 2 x\<rfloor> = int a"
proof -
  from assms have "real a \<le> log 2 x"
    by (simp add: le_log_iff powr_realpow)
  moreover have "log 2 x < log 2 (2 ^ Suc a)"
    using assms(1,3) by (subst log_less_cancel_iff) simp_all
  moreover have "log 2 ((2::real) ^ Suc a) = real (Suc a)"
    by (rule log_pow_cancel) simp_all
  ultimately show ?thesis by linarith
qed

lemma float64_nat:
  assumes "m < 2 ^ 53"
  shows "float64 (real m) = real m"
proof (cases "m = 0")
  case True
  then show ?thesis by (simp add: float64_def)
next
  case False
  then have pos: "0 < real m" by simp
  define e where "e = \<lfloor>log 2 (real m)\<rfloor>"
  from False have "1 \<le> real m" by simp
  then have "0 \<le> log 2 (real m)" by simp
  then have e0: "0 \<le> e" by (simp add: e_def)
  from assms have "real m < 2 ^ 53" by (metis of_nat_less_iff of_nat_numeral of_nat_power)
  then have "log 2 (real m) < 53"
    using log_less_iff [of 2 "real m" 53] pos by (simp add: powr_realpow)
  then have e52: "e \<le> 52" by (simp add: e_def floor_le_iff)
  define n where "n = nat (52 - e)"
  have abs: "\<bar>real m\<bar> = real m" by simp
  have "float64 (real m) = of_int (round_half_even (real m * 2 ^ n)) / 2 ^ n"
    by (rule float64_scaled [where e = e]) (use pos e52 in \<open>simp_all add: e_def n_def\<close>)
  moreover have "real m * 2 ^ n = of_int (int m * 2 ^ n)" by simp
  ultimately have "float64 (real m) = of_int (int m * 2 ^ n) / 2 ^ n"
    by (simp only: round_half_even_of_int)
  then show ?thesis by simp
qed


lemma ln2_lower: "5 / 9 < ln (2::real)"
proof -
  have "exp (5 / 9 :: real) \<le> 1 + 5 / 9 + (5 / 9)\<^sup>2"
    by (rule exp_bound) simp_all
  also have "\<dots> < 2" by (simp add: power2_eq_square)
  finally have "exp (5 / 9 :: real) < exp (ln 2)" by simp
  then show ?thesis by (simp only: exp_less_cancel_iff)
qed

lemma log2_one_minus:
  assumes "0 < y" and "y < 1"
  shows "log 2 (1 - y) < - y"
proof -
  have l2: "0 < ln (2::real)" "ln (2::real) < 1" using ln_2_less_1 by simp_all
  from assms have "ln (1 - y) \<le> - y" by (intro ln_one_minus_pos_upper_bound) simp_all
  then have "ln (1 - y) / ln 2 \<le> - y / ln 2"
    using l2(1) by (intro divide_right_mono) simp_all
  moreover from assms l2 have "- y / ln 2 < - y"
    by (simp add: field_simps)
  ultimately have "ln (1 - y) / ln 2 < - y" by linarith
  then show ?thesis by (simp add: log_def)
qed

lemma real_lt_pow49:
  fixes m :: nat
  assumes "m < 2 ^ 49 - 1"
  shows "real m + 2 \<le> 2 ^ 49"
proof -
  from assms have "m + 2 \<le> 2 ^ 49" by simp
  then have "real (m + 2) \<le> real (2 ^ 49)" by (simp only: of_nat_le_iff)
  then show ?thesis by simp
qed

lemma nat_lt_pow_real:
  fixes m K :: nat
  assumes "real m < 2 ^ K"
  shows "real m \<le> 2 ^ K - 1"
proof -
  from assms have "real m < real (2 ^ K)" by simp
  then have "m < 2 ^ K" by (simp only: of_nat_less_iff)
  then have "m + 1 \<le> 2 ^ K" by simp
  then have "real (m + 1) \<le> real (2 ^ K)" by (simp only: of_nat_le_iff)
  then show ?thesis by simp
qed

lemma log_gap:
  assumes "0 < m" and "m < 2 ^ 49 - 1"
  shows "log 2 (real m) < of_int \<lfloor>log 2 (real m)\<rfloor> + 1 - 1 / 2 ^ 48"
proof -
  define k where "k = \<lfloor>log 2 (real m)\<rfloor>"
  from assms(1) have m1: "1 \<le> real m" by simp
  then have "0 \<le> log 2 (real m)" by simp
  then have k0: "0 \<le> k" by (simp add: k_def)
  define K where "K = Suc (nat k)"
  have Kk: "real K = of_int k + 1" using k0 by (simp add: K_def)
  have "log 2 (real m) < of_int k + 1" by (simp add: k_def)
  then have "log 2 (real m) < real K" by (simp add: Kk)
  then have "real m < 2 powr real K"
    using m1 by (subst (asm) log_less_iff) simp_all
  then have up: "real m < 2 ^ K" by (simp add: powr_realpow)
  have "of_int k \<le> log 2 (real m)" by (simp add: k_def)
  then have "2 powr (of_int k) \<le> real m"
    using m1 by (subst (asm) le_log_iff) simp_all
  moreover have "2 powr (of_int k) = (2::real) ^ nat k"
    using k0 by (simp add: powr_real_of_int)
  ultimately have lo: "2 ^ nat k \<le> real m" by simp
  from real_lt_pow49 [OF assms(2)] have "real m < 2 ^ 49" by linarith
  with lo have "(2::real) ^ nat k < 2 ^ 49" by linarith
  then have "nat k < 49" by (simp only: power_strict_increasing_iff [of 2]) 
  then have K49: "K \<le> 49" by (simp add: K_def)
  from up have mK: "real m \<le> 2 ^ K - 1" by (rule nat_lt_pow_real)
  have bound: "real m \<le> 2 ^ K * (1 - 1 / 2 ^ 48)"
  proof (cases "K \<le> 48")
    case True
    then have "(2::real) ^ K \<le> 2 ^ 48" by (intro power_increasing) simp_all
    then have "(2::real) ^ K * (1 / 2 ^ 48) \<le> 1" by (simp add: field_simps)
    with mK show ?thesis by (simp add: algebra_simps)
  next
    case False
    with K49 have K: "K = 49" by simp
    from real_lt_pow49 [OF assms(2)] show ?thesis by (simp add: K)
  qed
  have c: "0 < 1 - 1 / (2::real) ^ 48" by simp
  from m1 have mpos: "0 < real m" by linarith
  have "log 2 (real m) \<le> log 2 (2 ^ K * (1 - 1 / 2 ^ 48))"
    using bound mpos by (subst log_le_cancel_iff) (simp_all add: c)
  also have "\<dots> = log 2 (2 ^ K) + log 2 (1 - 1 / 2 ^ 48)"
    by (rule log_mult_pos) (simp_all add: c)
  also have "log 2 ((2::real) ^ K) = real K"
    by (rule log_pow_cancel) simp_all
  also have "real K + log 2 (1 - 1 / 2 ^ 48) < real K + - (1 / 2 ^ 48)"
    using log2_one_minus [of "1 / 2 ^ 48"] by simp
  finally show ?thesis by (simp add: Kk k_def)
qed


lemma np_log2_exact:
  assumes "0 < m" and "m < 2 ^ 49 - 1"
  shows "\<lfloor>np_log2 m\<rfloor> = \<lfloor>log 2 (real m)\<rfloor>"
proof (cases "m = 1")
  case True
  have "float64 (real (1::nat)) = real 1" by (rule float64_nat) simp
  then show ?thesis using True by (simp add: np_log2_def) (simp add: float64_def)
next
  case False
  with assms(1) have m2: "2 \<le> real m" by simp
  from real_lt_pow49 [OF assms(2)] have m49: "real m < 2 ^ 49" by linarith
  from assms(2) have "m < 2 ^ 53" by simp
  then have fm: "float64 (real m) = real m" by (rule float64_nat)
  define x where "x = log 2 (real m)"
  from m2 have x1: "1 \<le> x"
    unfolding x_def by (subst le_log_iff) simp_all
  have "x < log 2 (2 ^ 49)" unfolding x_def
    using m2 m49 by (subst log_less_cancel_iff) simp_all
  moreover have "log 2 ((2::real) ^ 49) = real 49" by (rule log_pow_cancel) simp_all
  ultimately have x49: "x < 49" by simp
  define e where "e = \<lfloor>log 2 \<bar>x\<bar>\<rfloor>"
  from x1 have ax: "\<bar>x\<bar> = x" by simp
  from x1 have "0 \<le> log 2 x" by simp
  then have e0: "0 \<le> e" by (simp add: e_def ax)
  have "log 2 x < log 2 (2 ^ 6)"
    using x1 x49 by (subst log_less_cancel_iff) simp_all
  moreover have "log 2 ((2::real) ^ 6) = real 6" by (rule log_pow_cancel) simp_all
  ultimately have "log 2 x < 6" by simp
  then have e5: "e \<le> 5" by (simp add: e_def ax floor_le_iff)
  define n where "n = nat (52 - e)"
  from e5 e0 have n47: "47 \<le> n" by (simp add: n_def)
  define R where "R = round_half_even (x * 2 ^ n)"
  from x1 have xn0: "x \<noteq> 0" by simp
  from e5 have e52: "e \<le> 52" by simp
  have fx: "float64 x = of_int R / 2 ^ n"
    unfolding R_def
    by (rule float64_scaled [OF xn0 _ e52 n_def]) (simp add: e_def)
  define k where "k = \<lfloor>x\<rfloor>"
  have "of_int k \<le> x" by (simp add: k_def)
  then have "of_int (k * 2 ^ n) \<le> x * 2 ^ n" by simp
  then have "k * 2 ^ n \<le> \<lfloor>x * 2 ^ n\<rfloor>" by (simp only: le_floor_iff)
  also have "\<dots> \<le> R" unfolding R_def by (rule round_half_even_ge)
  finally have "real_of_int (k * 2 ^ n) \<le> of_int R" by (simp only: of_int_le_iff)
  then have "of_int k * (2::real) ^ n \<le> of_int R" by simp
  then have lower: "of_int k \<le> float64 x"
    by (simp add: fx field_simps)
  have gap: "1 / 2 ^ 48 < of_int k + 1 - x"
    using log_gap [OF assms] by (simp add: x_def k_def)
  have "(2::real) ^ 47 \<le> 2 ^ n" using n47 by (intro power_increasing) simp_all
  then have "(1::real) / 2 \<le> 2 ^ n * (1 / 2 ^ 48)" by simp
  also have "\<dots> < 2 ^ n * (of_int k + 1 - x)"
    using gap by (intro mult_strict_left_mono) simp_all
  finally have "x * 2 ^ n + 1 / 2 < (of_int k + 1) * 2 ^ n"
    by (simp add: algebra_simps)
  with round_half_even_le [of "x * 2 ^ n"] have "of_int R < (of_int k + 1) * (2::real) ^ n"
    by (simp add: R_def)
  then have upper: "float64 x < of_int k + 1"
    by (simp add: fx field_simps)
  from lower upper have "\<lfloor>float64 x\<rfloor> = k" by linarith
  then show ?thesis by (simp add: np_log2_def fm x_def k_def)
qed

lemma log2_one_minus_lower:
  assumes "0 < y" and "y \<le> 1 / 36"
  shows "- 2 * y < log 2 (1 - y)"
proof -
  from assms have "- y - 2 * y\<^sup>2 \<le> ln (1 - y)"
    by (intro ln_one_minus_pos_lower_bound) simp_all
  moreover have "y\<^sup>2 \<le> y * (1 / 36)"
    using assms by (simp add: power2_eq_square mult_left_mono)
  ultimately have l: "- y * (19 / 18) \<le> ln (1 - y)" by simp
  have l2: "5 / 9 < ln (2::real)" by (rule ln2_lower)
  then have pos: "0 < ln (2::real)" by linarith
  from l2 have "19 / 18 < 2 * ln (2::real)" by linarith
  with assms(1) have "y * (19 / 18) < y * (2 * ln 2)"
    by (rule mult_strict_left_mono [rotated]) 
  then have "y * (19 / 18) < 2 * y * ln 2" by (simp add: mult_ac)
  with l have "- 2 * y * ln 2 < ln (1 - y)" by linarith
  with pos have "- 2 * y < ln (1 - y) / ln 2"
    by (simp add: field_simps)
  then show ?thesis by (simp add: log_def)
qed

lemma log2_pow49_minus_1:
  "49 - 1 / 2 ^ 48 < log 2 (real (2 ^ 49 - 1 :: nat))"
  "log 2 (real (2 ^ 49 - 1 :: nat)) < 49"
proof -
  have eq: "real (2 ^ 49 - 1 :: nat) = 2 ^ 49 * (1 - 1 / 2 ^ 49)" by simp
  have c: "0 < 1 - 1 / (2::real) ^ 49" by simp
  have "log 2 (2 ^ 49 * (1 - 1 / 2 ^ 49)) = log 2 (2 ^ 49) + log 2 (1 - 1 / 2 ^ 49)"
    by (rule log_mult_pos) (simp_all add: c)
  moreover have "log 2 ((2::real) ^ 49) = real 49" by (rule log_pow_cancel) simp_all
  ultimately have x: "log 2 (real (2 ^ 49 - 1 :: nat)) = 49 + log 2 (1 - 1 / 2 ^ 49)"
    by (simp only: eq)
  from log2_one_minus_lower [of "1 / 2 ^ 49"] have "- 2 * (1 / 2 ^ 49) < log 2 (1 - 1 / 2 ^ 49)"
    by simp
  then show "49 - 1 / 2 ^ 48 < log 2 (real (2 ^ 49 - 1 :: nat))"
    unfolding x by simp
  from log2_one_minus [of "1 / 2 ^ 49"] show "log 2 (real (2 ^ 49 - 1 :: nat)) < 49"
    unfolding x by simp
qed

lemma np_log2_pow49_minus_1: "np_log2 (2 ^ 49 - 1) = 49"
proof -
  have fm: "float64 (real (2 ^ 49 - 1 :: nat)) = real (2 ^ 49 - 1 :: nat)"
    by (rule float64_nat) simp
  define x where "x = log 2 (real (2 ^ 49 - 1 :: nat))"
  from log2_pow49_minus_1 have lo: "49 - 1 / 2 ^ 48 < x" and hi: "x < 49"
    by (simp_all add: x_def)
  from lo have x32: "2 ^ 5 \<le> x" by simp
  from hi have x64: "x < 2 ^ Suc 5" by simp
  from x32 have xpos: "0 < x" by simp
  from floor_log2_bounds [OF xpos x32 x64] xpos have e: "\<lfloor>log 2 \<bar>x\<bar>\<rfloor> = 5" by simp
  from xpos have xn0: "x \<noteq> 0" by simp
  have fx: "float64 x = of_int (round_half_even (x * 2 ^ 47)) / 2 ^ 47"
    by (rule float64_scaled [OF xn0 e]) simp_all
  define r where "r = x * 2 ^ 47"
  define N :: int where "N = 49 * 2 ^ 47"
  from lo have rl: "of_int N - 1 / 2 < r" by (simp add: r_def N_def field_simps)
  from hi have rh: "r < of_int N" by (simp add: r_def N_def)
  from rl rh have fl: "\<lfloor>r\<rfloor> = N - 1" by linarith
  from rl have "1 / 2 < r - of_int (N - 1)" by simp
  with fl have "round_half_even r = N"
    by (simp add: round_half_even_def Let_def)
  then have "float64 x = 49" by (simp add: fx r_def N_def)
  moreover have "np_log2 (2 ^ 49 - 1) = float64 x"
    by (simp only: np_log2_def fm x_def)
  ultimately show ?thesis by simp
qed

lemma floor_log2_pow49_minus_1: "\<lfloor>log 2 (real (2 ^ 49 - 1 :: nat))\<rfloor> = 48"
proof -
  from log2_pow49_minus_1 have "48 \<le> log 2 (real (2 ^ 49 - 1 :: nat))"
    "log 2 (real (2 ^ 49 - 1 :: nat)) < 49" by simp_all
  then show ?thesis by linarith
qed

lemma set_range_int: "set (range_int n) = {i. 0 \<le> i \<and> i < n}"
proof (rule set_eqI)
  fix x
  show "x \<in> set (range_int n) \<longleftrightarrow> x \<in> {i. 0 \<le> i \<and> i < n}"
  proof
    assume "x \<in> set (range_int n)"
    then show "x \<in> {i. 0 \<le> i \<and> i < n}" by (auto simp: range_int_def)
  next
    assume "x \<in> {i. 0 \<le> i \<and> i < n}"
    then have "nat x < nat n" "x = int (nat x)" by auto
    then show "x \<in> set (range_int n)" unfolding range_int_def
      by (metis atLeastLessThan_iff image_eqI le0 list.set_map set_upt)
  qed
qed

lemma length_range_int [simp]: "length (range_int n) = nat n"
  by (simp add: range_int_def)

lemma init_scale_lengths:
  "length (ml_himasks (snd (init_scale N cplx down ord nori Y YI st))) = Suc (length (ml_himasks (snd st)))"
  "length (ml_lomasks (snd (init_scale N cplx down ord nori Y YI st))) = Suc (length (ml_lomasks (snd st)))"
  "length (ml_loindices (snd (init_scale N cplx down ord nori Y YI st))) = Suc (length (ml_loindices (snd st)))"
  "length (ml_anglemasks (snd (init_scale N cplx down ord nori Y YI st))) = Suc (length (ml_anglemasks (snd st)))"
  "length (ml_anglemasks_recon (snd (init_scale N cplx down ord nori Y YI st))) = Suc (length (ml_anglemasks_recon (snd st)))"
  by (simp_all add: init_scale_def Let_def split_beta)

lemma init_scale_rows:
  "(\<forall>r \<in> set (ml_anglemasks (snd st)). length r = nat nori) \<Longrightarrow>
   (\<forall>r \<in> set (ml_anglemasks (snd (init_scale N cplx down ord nori Y YI st))). length r = nat nori)"
  "(\<forall>r \<in> set (ml_anglemasks_recon (snd st)). length r = nat nori) \<Longrightarrow>
   (\<forall>r \<in> set (ml_anglemasks_recon (snd (init_scale N cplx down ord nori Y YI st))). length r = nat nori)"
  by (simp_all add: init_scale_def Let_def split_beta)

lemma init_scales_lengths:
  "length (ml_himasks (snd (init_scales N cplx down ord nori Y YI n st))) = length (ml_himasks (snd st)) + n"
  "length (ml_lomasks (snd (init_scales N cplx down ord nori Y YI n st))) = length (ml_lomasks (snd st)) + n"
  "length (ml_loindices (snd (init_scales N cplx down ord nori Y YI n st))) = length (ml_loindices (snd st)) + n"
  "length (ml_anglemasks (snd (init_scales N cplx down ord nori Y YI n st))) = length (ml_anglemasks (snd st)) + n"
  "length (ml_anglemasks_recon (snd (init_scales N cplx down ord nori Y YI n st))) = length (ml_anglemasks_recon (snd st)) + n"
  by (induction n arbitrary: st; simp add: init_scale_lengths)+

lemma init_scales_rows:
  "(\<forall>r \<in> set (ml_anglemasks (snd st)). length r = nat nori) \<Longrightarrow>
   (\<forall>r \<in> set (ml_anglemasks (snd (init_scales N cplx down ord nori Y YI n st))). length r = nat nori)"
  "(\<forall>r \<in> set (ml_anglemasks_recon (snd st)). length r = nat nori) \<Longrightarrow>
   (\<forall>r \<in> set (ml_anglemasks_recon (snd (init_scales N cplx down ord nori Y YI n st))). length r = nat nori)"
proof (induction n arbitrary: st)
  case 0
  { case 1 then show ?case by simp }
  { case 2 then show ?case by simp }
next
  case (Suc n)
  { case 1 
    from Suc.IH(1) [OF init_scale_rows(1) [OF 1]] show ?case by simp }
  { case 2
    from Suc.IH(2) [OF init_scale_rows(2) [OF 2]] show ?case by simp }
qed

lemma init_scales_rows_empty:
  assumes "m = nat nori"
  shows "\<forall>r \<in> set (ml_anglemasks (snd (init_scales N cplx down ord nori Y YI n
            (sv0, \<lparr>ml_anglemasks = [], ml_anglemasks_recon = [], ml_himasks = [],
                   ml_lomasks = [], ml_loindices = []\<rparr>)))). length r = m"
    and "\<forall>r \<in> set (ml_anglemasks_recon (snd (init_scales N cplx down ord nori Y YI n
            (sv0, \<lparr>ml_anglemasks = [], ml_anglemasks_recon = [], ml_himasks = [],
                   ml_lomasks = [], ml_loindices = []\<rparr>)))). length r = m"
  unfolding assms by (rule init_scales_rows; simp)+

lemma init_built:
  assumes "init N shp ht ord tw cplx down tight = Inr (ws, P)"
  shows "built P"
proof -
  from assms obtain mh where mh: "max_ht shp = Some mh"
    by (auto simp: init_def Let_def split: option.splits)
  have P: "P = snd (projr (init N shp ht ord tw cplx down tight))"
    using assms by simp
  show ?thesis
  proof (cases ht)
    case Auto
    show ?thesis
      unfolding P built_def
      by (simp add: init_def Let_def split_beta mh Auto init_scales_lengths
          init_scales_rows_empty)
  next
    case (Height h)
    with assms mh have le: "\<not> h > mh"
      by (cases "h > mh") (auto simp: init_def Let_def)
    show ?thesis
      unfolding P built_def
      by (simp add: init_def Let_def split_beta mh Height le init_scales_lengths
          init_scales_rows_empty)
  qed
qed


lemma max_ht_exact:
  assumes "0 < min H W" and "min H W < 2 ^ 49 - 1"
  shows "max_ht (H, W) = Some (\<lfloor>log 2 (real (min H W))\<rfloor> - 2)"
  using np_log2_exact [OF assms] assms(1) by (simp add: max_ht_def Let_def)

lemma floor_log2_16: "\<lfloor>log 2 (real (min (16::nat) 16))\<rfloor> = 4"
proof -
  have "log 2 ((2::real) ^ 4) = real 4" by (rule log_pow_cancel) simp_all
  then show ?thesis by simp
qed

lemma max_ht_16: "max_ht (16, 16) = Some 2"
proof -
  have "max_ht (16, 16) = Some (\<lfloor>log 2 (real (min (16::nat) 16))\<rfloor> - 2)"
    by (rule max_ht_exact) simp_all
  then show ?thesis by (simp only: floor_log2_16) simp
qed

lemma max_ht_pow49_minus_1: "max_ht (2 ^ 49 - 1, 2 ^ 49 - 1) = Some 47"
proof -
  from np_log2_pow49_minus_1 have "np_log2 562949953421311 = 49" by simp
  then show ?thesis by (simp add: max_ht_def Let_def)
qed

lemma demo_init:
  "init demo_numerics (16, 16) (Height 1) 1 1 False False False = Inr ([], demo_pyramid)"
  by (simp add: init_def max_ht_16 Let_def demo_numerics_def demo_pyramid_def
      py_int_def init_scale_def range_int_simps)

lemma set_sel_ints: "set (sel_ints scs) = {i. SInt i \<in> set scs}"
  by (induction scs rule: sel_ints.induct) auto

lemma range_assert_iff:
  assumes "xs \<noteq> []"
  shows "(Max (set xs) < n \<and> Min (set xs) \<ge> (0::int)) \<longleftrightarrow> (\<forall>x \<in> set xs. 0 \<le> x \<and> x < n)"
  using assms by (auto simp: Max_less_iff Min_ge_iff)

lemma check_scales_result:
  "check_scales P ks sels = None \<or> check_scales P ks sels = Some missing_scale_error"
  by (induction P ks sels rule: check_scales.induct) auto

lemma check_scales_None:
  assumes "check_scales P ks sels = None"
  shows "SStr s \<in> set sels \<Longrightarrow> KStr s \<in> set ks"
    and "SInt i \<in> set sels \<Longrightarrow> b \<in> set (range_int (num_orientations P)) \<Longrightarrow> KBand i b \<in> set ks"
  using assms
  by (induction P ks sels rule: check_scales.induct) (auto split: if_splits)

lemma pyramid_keys_cases:
  assumes "k \<in> set (pyramid_keys P)"
  shows "k = KStr residual_highpass \<or> k = KStr residual_lowpass
       \<or> (\<exists>s b. k = KBand s b \<and> s \<in> set (range_int (num_scales P))
                \<and> b \<in> set (range_int (num_orientations P)))"
  using assms by (auto simp: pyramid_keys_def)

lemma set_all_scales:
  "set (all_scales n) = {SStr residual_lowpass, SStr residual_highpass} \<union> SInt ` set (range_int n)"
  by (auto simp: all_scales_def)

section \<open>The constructor: height and transition width\<close>

text \<open>
  Claim C3, as amended. For every image shape \<open>(H, W)\<close> with
  \<open>1 \<le> min(H, W) < 2^49 - 1\<close> and every integer height strictly greater than
  \<open>floor(log2(min(H, W))) - 2\<close>, the constructor raises the configuration error; with
  \<^verbatim>\<open>height='auto'\<close> it returns an object whose \<open>num_scales\<close> is
  \<open>floor(log2(min(H, W))) - 2\<close>. The helpers that fill the masks are total functions
  here. The bounds are needed: line 108 takes the logarithm in double precision, which at
  \<open>min(H, W) = 2^49 - 1\<close> rounds to 49 and gives \<open>max_ht = 47\<close> where the exact value
  is 46, and at a zero dimension gives \<^verbatim>\<open>-inf\<close>, which \<^verbatim>\<open>int\<close> refuses. The
  evaluation after the witness shows both.
\<close>

theorem init_height_limit:
  assumes "0 < min H W" and "min H W < 2 ^ 49 - 1"
  shows "(\<lfloor>log 2 (real (min H W))\<rfloor> - 2 < h \<longrightarrow>
            init N (H, W) (Height h) ord tw cplx down tight = Inl height_error)
       \<and> (\<exists>ws P. init N (H, W) Auto ord tw cplx down tight = Inr (ws, P)
                 \<and> num_scales P = \<lfloor>log 2 (real (min H W))\<rfloor> - 2)"
proof
  show "\<lfloor>log 2 (real (min H W))\<rfloor> - 2 < h \<longrightarrow>
          init N (H, W) (Height h) ord tw cplx down tight = Inl height_error"
    by (simp add: init_def max_ht_exact [OF assms])
next
  show "\<exists>ws P. init N (H, W) Auto ord tw cplx down tight = Inr (ws, P)
                 \<and> num_scales P = \<lfloor>log 2 (real (min H W))\<rfloor> - 2"
    by (simp add: init_def max_ht_exact [OF assms] Let_def split_beta)
qed

theorem init_height_limit_witness:
  "(0::nat) < min 16 16 \<and> min (16::nat) 16 < 2 ^ 49 - 1 \<and>
   init demo_numerics (16, 16) (Height 3) 1 1 False False False = Inl height_error \<and>
   (\<exists>ws P. init demo_numerics (16, 16) Auto 1 1 False False False = Inr (ws, P)
            \<and> num_scales P = 2)"
proof -
  have pos: "(0::nat) < min 16 16" and small: "min (16::nat) 16 < 2 ^ 49 - 1" by simp_all
  from init_height_limit [OF pos small, of 3 demo_numerics 1 1 False False False,
      unfolded floor_log2_16]
  show ?thesis by simp
qed

theorem init_height_limit_counterexample:
  "max_ht (2 ^ 49 - 1, 2 ^ 49 - 1) = Some 47
   \<and> \<lfloor>log 2 (real (min (2 ^ 49 - 1 :: nat) (2 ^ 49 - 1)))\<rfloor> - 2 = 46
   \<and> init demo_numerics (2 ^ 49 - 1, 2 ^ 49 - 1) (Height 47) 1 1 False False False
       \<noteq> Inl height_error
   \<and> init demo_numerics (0, 16) Auto 1 1 False False False = Inl OverflowError"
proof (intro conjI)
  from max_ht_pow49_minus_1 have mh: "max_ht (562949953421311, 562949953421311) = Some 47"
    by simp
  show "max_ht (2 ^ 49 - 1, 2 ^ 49 - 1) = Some 47" by (rule max_ht_pow49_minus_1)
  show "\<lfloor>log 2 (real (min (2 ^ 49 - 1 :: nat) (2 ^ 49 - 1)))\<rfloor> - 2 = 46"
    by (simp only: min.idem floor_log2_pow49_minus_1)
  show "init demo_numerics (2 ^ 49 - 1, 2 ^ 49 - 1) (Height 47) 1 1 False False False
          \<noteq> Inl height_error"
    by (simp add: init_def mh Let_def split_beta)
  show "init demo_numerics (0, 16) Auto 1 1 False False False = Inl OverflowError"
    by (simp add: init_def max_ht_def)
qed

text \<open>
  Claim C6, as amended. The constructor tests \<^verbatim>\<open>twidth <= 0\<close>, not \<^verbatim>\<open>twidth < 1\<close>:
  for every \<open>twidth \<le> 0\<close> it emits the warning (after any warning about odd
  dimensions or about the order) and returns exactly the object built for \<open>twidth = 1\<close>,
  or raises as that call does. For an integer \<open>twidth\<close> this is the claim as stated. A
  fractional value between 0 and 1, such as 0.5, is not warned about and is truncated to 0
  by \<^verbatim>\<open>int(twidth)\<close>, as the evaluation after the witness shows.
\<close>

theorem init_twidth_nonpositive:
  assumes "tw \<le> 0"
  shows "init N shp ht ord tw cplx down tight =
           (case init N shp ht ord 1 cplx down tight of
              Inl e \<Rightarrow> Inl e
            | Inr (ws, P) \<Rightarrow> Inr (ws @ [twidth_warning], P))"
  using assms
  by (simp add: init_def Let_def split_beta split: option.splits height.splits)

theorem init_twidth_nonpositive_witness:
  "(- 2 :: real) \<le> 0 \<and>
   init demo_numerics (16, 16) (Height 1) 1 (- 2) False False False
     = Inr ([twidth_warning], demo_pyramid)"
proof -
  have le: "(- 2 :: real) \<le> 0" by simp
  from init_twidth_nonpositive [OF le, of demo_numerics "(16, 16)" "Height 1" 1 False False False]
    demo_init
  show ?thesis by simp
qed

theorem init_twidth_half_counterexample:
  "init demo_numerics (16, 16) (Height 1) 1 (1 / 2) False False False
     = Inr ([], demo_pyramid\<lparr>lo0mask := 0, hi0mask := 0, himasks := [0], lomasks := [0]\<rparr>)
   \<and> init demo_numerics (16, 16) (Height 1) 1 1 False False False = Inr ([], demo_pyramid)
   \<and> lo0mask demo_pyramid = 1"
  by (simp add: init_def max_ht_16 Let_def demo_numerics_def demo_pyramid_def
      py_int_def init_scale_def range_int_simps)

section \<open>Forward transform: validation of the scales argument\<close>

text \<open>
  Claim C5, as amended. For every \<^verbatim>\<open>scales\<close> list passed to \<^verbatim>\<open>forward\<close> that contains
  an integer outside \<open>0..num_scales-1\<close>, the call raises the assertion error. Only the
  integer entries are validated: a string other than the two residual names matches no
  test of the method and is passed over, as the evaluation after the witness shows (the
  unknown string is ignored and the bands of scale 0 are returned).
\<close>

theorem forward_rejects_bad_int:
  assumes "SInt s \<in> set scs" and "s < 0 \<or> num_scales P \<le> s"
  shows "forward T P x (Seq scs) = Inl (AssertionError ''Scales must be within 0 and num_scales-1'')"
proof -
  from assms(1) have ne: "scs \<noteq> []" by auto
  from assms(1) have mem: "s \<in> set (sel_ints scs)" by (simp add: set_sel_ints)
  then have ne': "sel_ints scs \<noteq> []" by auto
  from assms(2) have "\<not> (0 \<le> s \<and> s < num_scales P)" by auto
  with mem have "\<not> (\<forall>x \<in> set (sel_ints scs). 0 \<le> x \<and> x < num_scales P)"
    by blast
  with range_assert_iff [OF ne'] 
  have "\<not> (Max (set (sel_ints scs)) < num_scales P \<and> Min (set (sel_ints scs)) \<ge> 0)"
    by blast
  with ne ne' show ?thesis
    by (simp add: forward_def Let_def del: Max_less_iff Min_ge_iff Min.bounded_iff Max.bounded_iff)
qed

theorem forward_rejects_bad_int_witness:
  "SInt 1 \<in> set [SInt 0, SInt 1] \<and> (1 < (0::int) \<or> num_scales demo_pyramid \<le> 1) \<and>
   forward demo_torch demo_pyramid 5 (Seq [SInt 0, SInt 1])
     = Inl (AssertionError ''Scales must be within 0 and num_scales-1'')"
proof -
  have a: "SInt 1 \<in> set [SInt 0, SInt 1]" by simp
  have b: "1 < (0::int) \<or> num_scales demo_pyramid \<le> 1" by (simp add: demo_pyramid_def)
  from forward_rejects_bad_int [OF a b, of demo_torch 5] a b show ?thesis by simp
qed

theorem forward_ignores_unknown_string_counterexample:
  "forward demo_torch demo_pyramid 5 (Seq [SInt 0, SStr ''residual_midpass''])
     = Inr (demo_pyramid\<lparr>pyr_size := [KBand 0 0 \<mapsto> (1, 1), KBand 0 1 \<mapsto> (1, 1)]\<rparr>,
            [(KBand 0 0, 5), (KBand 0 1, 5)])"
  by (simp add: forward_def forward_highpass_def forward_lowpass_def demo_torch_def
      demo_pyramid_def Let_def range_int_simps forward_scale_def py_nth_def
      residual_highpass_def residual_lowpass_def forward_band_def)

section \<open>Forward transform: selecting a subset of the scales\<close>

text \<open>
  The proof compares two runs of \<^verbatim>\<open>forward\<close> on the same input: the low-pass spectrum
  handed from scale to scale is the same in both, and the dictionary of the run with the
  smaller selection stays included in the dictionary of the run that selects everything.
\<close>

lemma py_nth_in_range:
  "0 \<le> i \<Longrightarrow> i < int (length xs) \<Longrightarrow> py_nth xs i = Inr (xs ! nat i)"
  by (simp add: py_nth_def)

lemma map_of_update: "map_of (AList.update k v al) = (map_of al)(k \<mapsto> v)"
  by (rule update_conv')

lemma dom_map_of_update: "dom (map_of (AList.update k v al)) = insert k (dom (map_of al))"
  by (simp add: dom_map_of_conv_image_fst dom_update)

text \<open>Two runs of the band loop from comparable dictionaries.\<close>

lemma forward_bands_mono:
  assumes "forward_bands T P i l h bs (c1, s1) = Inr (c1', s1')"
      and "map_of c1 \<subseteq>\<^sub>m map_of c2"
  shows "\<exists>c2' s2'. forward_bands T P i l h bs (c2, s2) = Inr (c2', s2')
                   \<and> map_of c1' \<subseteq>\<^sub>m map_of c2'"
  using assms
proof (induction bs arbitrary: c1 s1 c2 s2)
  case Nil
  then show ?case by simp
next
  case (Cons b bs)
  from Cons.prems(1) obtain row where row: "py_nth (anglemasks P) i = Inr row"
    by (cases "py_nth (anglemasks P) i") auto
  from Cons.prems(1) row obtain am where am: "py_nth row b = Inr am"
    by (cases "py_nth row b") auto
  obtain c shp where band: "forward_band T P l am h = (c, shp)"
    by (cases "forward_band T P l am h")
  from Cons.prems(1) row am band
  have run1: "forward_bands T P i l h bs
                (AList.update (KBand i b) c c1, s1(KBand i b \<mapsto> shp)) = Inr (c1', s1')"
    by simp
  from Cons.prems(2)
  have le: "map_of (AList.update (KBand i b) c c1) \<subseteq>\<^sub>m map_of (AList.update (KBand i b) c c2)"
    by (simp add: map_of_update map_le_def)
  from Cons.IH [OF run1 le, of "s2(KBand i b \<mapsto> shp)"]
  obtain c2' s2' where r2: "forward_bands T P i l h bs
        (AList.update (KBand i b) c c2, s2(KBand i b \<mapsto> shp)) = Inr (c2', s2')"
    and le2: "map_of c1' \<subseteq>\<^sub>m map_of c2'"
    by blast
  from row am band r2 have "forward_bands T P i l h (b # bs) (c2, s2) = Inr (c2', s2')"
    by simp
  with le2 show ?case by blast
qed

lemma forward_bands_fresh:
  assumes "forward_bands T P i l h bs (c2, s2) = Inr (c2', s2')"
      and "map_of c1 \<subseteq>\<^sub>m map_of c2"
      and "\<forall>b. KBand i b \<notin> dom (map_of c1)"
  shows "map_of c1 \<subseteq>\<^sub>m map_of c2'"
  using assms
proof (induction bs arbitrary: c2 s2)
  case Nil
  then show ?case by simp
next
  case (Cons b bs)
  from Cons.prems(1) obtain row where row: "py_nth (anglemasks P) i = Inr row"
    by (cases "py_nth (anglemasks P) i") auto
  from Cons.prems(1) row obtain am where am: "py_nth row b = Inr am"
    by (cases "py_nth row b") auto
  obtain c shp where band: "forward_band T P l am h = (c, shp)"
    by (cases "forward_band T P l am h")
  from Cons.prems(1) row am band
  have run: "forward_bands T P i l h bs
                (AList.update (KBand i b) c c2, s2(KBand i b \<mapsto> shp)) = Inr (c2', s2')"
    by simp
  from Cons.prems(2,3)
  have le: "map_of c1 \<subseteq>\<^sub>m map_of (AList.update (KBand i b) c c2)"
    by (auto simp: map_of_update map_le_def)
  from Cons.IH [OF run le Cons.prems(3)] show ?case .
qed

lemma forward_bands_dom:
  assumes "forward_bands T P i l h bs (c, s) = Inr (c', s')"
  shows "dom (map_of c') \<subseteq> dom (map_of c) \<union> {k. \<exists>b. k = KBand i b}"
  using assms
proof (induction bs arbitrary: c s)
  case Nil
  then show ?case by simp
next
  case (Cons b bs)
  from Cons.prems(1) obtain row where row: "py_nth (anglemasks P) i = Inr row"
    by (cases "py_nth (anglemasks P) i") auto
  from Cons.prems(1) row obtain am where am: "py_nth row b = Inr am"
    by (cases "py_nth row b") auto
  obtain cf shp where band: "forward_band T P l am h = (cf, shp)"
    by (cases "forward_band T P l am h")
  from Cons.prems(1) row am band
  have run: "forward_bands T P i l h bs
                (AList.update (KBand i b) cf c, s(KBand i b \<mapsto> shp)) = Inr (c', s')"
    by simp
  from Cons.IH [OF run] show ?case
    unfolding dom_map_of_update by blast
qed

lemma forward_bands_total:
  assumes "0 \<le> i" and "i < int (length (anglemasks P))"
      and "\<forall>b \<in> set bs. 0 \<le> b \<and> b < int (length (anglemasks P ! nat i))"
  shows "\<exists>r. forward_bands T P i l h bs st = Inr r"
  using assms(3)
proof (induction bs arbitrary: st)
  case Nil
  then show ?case by simp
next
  case (Cons b bs)
  from Cons.prems have b: "0 \<le> b" "b < int (length (anglemasks P ! nat i))"
    and rest: "\<forall>b \<in> set bs. 0 \<le> b \<and> b < int (length (anglemasks P ! nat i))"
    by simp_all
  obtain c shp where band:
    "forward_band T P l (anglemasks P ! nat i ! nat b) h = (c, shp)"
    by (cases "forward_band T P l (anglemasks P ! nat i ! nat b) h")
  from Cons.IH [OF rest]
  obtain r where "forward_bands T P i l h bs
      (AList.update (KBand i b) c (fst st), (snd st)(KBand i b \<mapsto> shp)) = Inr r"
    by blast
  with band show ?case
    by (simp add: py_nth_in_range [OF assms(1,2)] py_nth_in_range [OF b])
qed


text \<open>One scale, in the run that selects \<open>scs1\<close> and in the run that selects everything.\<close>

lemma forward_scale_sim:
  assumes bt: "built P"
      and i: "i \<in> set (range_int (num_scales P))"
      and all: "SInt i \<in> set scs2"
      and run1: "forward_scale T P scs1 i (l, c1, s1) = Inr (l', c1', s1')"
      and le: "map_of c1 \<subseteq>\<^sub>m map_of c2"
      and fresh: "\<forall>b. KBand i b \<notin> dom (map_of c1)"
  shows "\<exists>c2' s2'. forward_scale T P scs2 i (l, c2, s2) = Inr (l', c2', s2')
                   \<and> map_of c1' \<subseteq>\<^sub>m map_of c2'
                   \<and> dom (map_of c1') \<subseteq> dom (map_of c1) \<union> {k. \<exists>b. k = KBand i b}"
proof -
  from i have i0: "0 \<le> i" and ilt: "i < num_scales P" by (auto simp: set_range_int)
  from bt ilt i0 have ih: "i < int (length (himasks P))" and ia: "i < int (length (anglemasks P))"
    by (auto simp: built_def)
  from ia i0 have "nat i < length (anglemasks P)" by simp
  then have "anglemasks P ! nat i \<in> set (anglemasks P)" by (rule nth_mem)
  with bt have rowlen: "length (anglemasks P ! nat i) = nat (num_orientations P)"
    by (simp add: built_def)
  have hm: "py_nth (himasks P) i = Inr (himasks P ! nat i)"
    by (rule py_nth_in_range [OF i0 ih])
  let ?h = "himasks P ! nat i"
  let ?bs = "range_int (num_orientations P)"
  have bsr: "\<forall>b \<in> set ?bs. 0 \<le> b \<and> b < int (length (anglemasks P ! nat i))"
    by (auto simp: set_range_int rowlen)
  \<comment> \<open>the band part of the two runs\<close>
  define B1 where "B1 = (if SInt i \<in> set scs1
                         then forward_bands T P i l ?h ?bs (c1, s1) else Inr (c1, s1))"
  have fs1: "forward_scale T P scs1 i (l, c1, s1) =
      (case B1 of Inl e \<Rightarrow> Inl e
       | Inr cs \<Rightarrow>
          if \<not> downsample P then
            (case py_nth (lomasks P) i of
               Inl e \<Rightarrow> Inl e
             | Inr lomask \<Rightarrow>
                 (let lodft1 = t_mul T l lomask
                  in Inr (if fft_norm P \<noteq> Ortho then t_smul T 2 lodft1 else lodft1, cs)))
          else
            (case py_nth (loindices P) i of
               Inl e \<Rightarrow> Inl e
             | Inr (lostart, loend) \<Rightarrow>
                 (let lodft1 = t_crop T lostart loend l
                  in case py_nth (lomasks P) i of
                       Inl e \<Rightarrow> Inl e
                     | Inr lomask \<Rightarrow> Inr (t_mul T lodft1 lomask, cs))))"
    by (simp add: forward_scale_def B1_def hm)
  have fs2: "forward_scale T P scs2 i (l, c2, s2) =
      (case forward_bands T P i l ?h ?bs (c2, s2) of Inl e \<Rightarrow> Inl e
       | Inr cs \<Rightarrow>
          if \<not> downsample P then
            (case py_nth (lomasks P) i of
               Inl e \<Rightarrow> Inl e
             | Inr lomask \<Rightarrow>
                 (let lodft1 = t_mul T l lomask
                  in Inr (if fft_norm P \<noteq> Ortho then t_smul T 2 lodft1 else lodft1, cs)))
          else
            (case py_nth (loindices P) i of
               Inl e \<Rightarrow> Inl e
             | Inr (lostart, loend) \<Rightarrow>
                 (let lodft1 = t_crop T lostart loend l
                  in case py_nth (lomasks P) i of
                       Inl e \<Rightarrow> Inl e
                     | Inr lomask \<Rightarrow> Inr (t_mul T lodft1 lomask, cs))))"
    using all by (simp add: forward_scale_def hm)
  from run1 fs1 obtain m1 z1 where b1: "B1 = Inr (m1, z1)"
    by (cases B1) auto
  have "\<exists>m2 z2. forward_bands T P i l ?h ?bs (c2, s2) = Inr (m2, z2)
                \<and> map_of m1 \<subseteq>\<^sub>m map_of m2
                \<and> dom (map_of m1) \<subseteq> dom (map_of c1) \<union> {k. \<exists>b. k = KBand i b}"
  proof (cases "SInt i \<in> set scs1")
    case True
    with b1 have r1: "forward_bands T P i l ?h ?bs (c1, s1) = Inr (m1, z1)"
      by (simp add: B1_def)
    from forward_bands_mono [OF r1 le, of s2] forward_bands_dom [OF r1]
    show ?thesis by blast
  next
    case False
    with b1 have same: "m1 = c1" by (simp add: B1_def)
    from forward_bands_total [OF i0 ia bsr, of T l ?h "(c2, s2)"]
    obtain m2 z2 where r2: "forward_bands T P i l ?h ?bs (c2, s2) = Inr (m2, z2)"
      by (metis surj_pair)
    from forward_bands_fresh [OF r2 le fresh] same r2 show ?thesis by auto
  qed
  then obtain m2 z2 where r2: "forward_bands T P i l ?h ?bs (c2, s2) = Inr (m2, z2)"
    and le2: "map_of m1 \<subseteq>\<^sub>m map_of m2"
    and dom1: "dom (map_of m1) \<subseteq> dom (map_of c1) \<union> {k. \<exists>b. k = KBand i b}"
    by blast
  from run1 have "c1' = m1 \<and> forward_scale T P scs2 i (l, c2, s2) = Inr (l', m2, z2)"
    unfolding fs1 fs2 b1 r2
    by (auto simp: Let_def split: if_splits sum.splits prod.splits)
  with le2 dom1 show ?thesis by blast
qed


lemma forward_scales_sim:
  assumes bt: "built P"
      and dist: "distinct js"
      and rng: "set js \<subseteq> set (range_int (num_scales P))"
      and all: "\<forall>i \<in> set js. SInt i \<in> set scs2"
      and run1: "forward_scales T P scs1 js (l, c1, s1) = Inr (l', c1', s1')"
      and le: "map_of c1 \<subseteq>\<^sub>m map_of c2"
      and fresh: "\<forall>i \<in> set js. \<forall>b. KBand i b \<notin> dom (map_of c1)"
  shows "\<exists>c2' s2'. forward_scales T P scs2 js (l, c2, s2) = Inr (l', c2', s2')
                   \<and> map_of c1' \<subseteq>\<^sub>m map_of c2'
                   \<and> dom (map_of c1') \<subseteq> dom (map_of c1) \<union> {k. \<exists>i b. k = KBand i b}"
  using dist rng all run1 le fresh
proof (induction js arbitrary: l c1 s1 c2 s2)
  case Nil
  then show ?case by auto
next
  case (Cons i js)
  from Cons.prems(4) obtain la ca sa
    where step1: "forward_scale T P scs1 i (l, c1, s1) = Inr (la, ca, sa)"
      and rest1: "forward_scales T P scs1 js (la, ca, sa) = Inr (l', c1', s1')"
    by (cases "forward_scale T P scs1 i (l, c1, s1)") auto
  from Cons.prems have i: "i \<in> set (range_int (num_scales P))" and sel: "SInt i \<in> set scs2"
    and fr: "\<forall>b. KBand i b \<notin> dom (map_of c1)"
    by auto
  from forward_scale_sim [OF bt i sel step1 Cons.prems(5) fr, of s2]
  obtain cb sb where step2: "forward_scale T P scs2 i (l, c2, s2) = Inr (la, cb, sb)"
    and le': "map_of ca \<subseteq>\<^sub>m map_of cb"
    and dom': "dom (map_of ca) \<subseteq> dom (map_of c1) \<union> {k. \<exists>b. k = KBand i b}"
    by blast
  from Cons.prems(1) have dist': "distinct js" and notin: "i \<notin> set js" by auto
  from Cons.prems(2,3) have rng': "set js \<subseteq> set (range_int (num_scales P))"
    and all': "\<forall>j \<in> set js. SInt j \<in> set scs2" by auto
  have fresh': "\<forall>j \<in> set js. \<forall>b. KBand j b \<notin> dom (map_of ca)"
  proof (intro ballI allI notI)
    fix j b
    assume j: "j \<in> set js" and "KBand j b \<in> dom (map_of ca)"
    with dom' have "KBand j b \<in> dom (map_of c1) \<or> j = i" by auto
    with j notin Cons.prems(6) show False by auto
  qed
  from Cons.IH [OF dist' rng' all' rest1 le' fresh', of sb]
  obtain c2' s2' where rest2: "forward_scales T P scs2 js (la, cb, sb) = Inr (l', c2', s2')"
    and le2: "map_of c1' \<subseteq>\<^sub>m map_of c2'"
    and dom2: "dom (map_of c1') \<subseteq> dom (map_of ca) \<union> {k. \<exists>i b. k = KBand i b}"
    by blast
  from step2 rest2 have "forward_scales T P scs2 (i # js) (l, c2, s2) = Inr (l', c2', s2')"
    by simp
  moreover from dom2 dom'
  have "dom (map_of c1') \<subseteq> dom (map_of c1) \<union> {k. \<exists>i b. k = KBand i b}" by blast
  ultimately show ?case using le2 by blast
qed

lemma distinct_range_int: "distinct (range_int n)"
  by (simp add: range_int_def distinct_map)

lemma built_pyr_size [simp]: "built (P\<lparr>pyr_size := ps\<rparr>) = built P"
  by (simp add: built_def)

lemma forward_highpass_le:
  assumes "SStr residual_highpass \<in> set scs2"
  shows "map_of (fst (forward_highpass T P scs1 imdft)) \<subseteq>\<^sub>m
         map_of (fst (forward_highpass T P scs2 imdft))"
    and "dom (map_of (fst (forward_highpass T P scs1 imdft))) \<subseteq> {KStr residual_highpass}"
  using assms by (auto simp: forward_highpass_def Let_def map_le_def)

lemma forward_lowpass_le:
  assumes "SStr residual_lowpass \<in> set scs2"
      and "map_of c1 \<subseteq>\<^sub>m map_of c2"
      and "KStr residual_lowpass \<notin> dom (map_of c1)"
  shows "map_of (snd (forward_lowpass T P scs1 (l, c1, s1))) \<subseteq>\<^sub>m
         map_of (snd (forward_lowpass T P scs2 (l, c2, s2)))"
proof (cases "SStr residual_lowpass \<in> set scs1")
  case True
  with assms(1,2) show ?thesis
    by (simp add: forward_lowpass_def Let_def update_conv' map_le_def)
next
  case False
  with assms show ?thesis
    by (auto simp: forward_lowpass_def Let_def update_conv' map_le_def)
qed

text \<open>The run that selects everything passes the assertion on the integer entries.\<close>

lemma all_scales_in_range:
  "sel_ints (all_scales n) = [] \<or>
   (Max (set (sel_ints (all_scales n))) < n \<and> Min (set (sel_ints (all_scales n))) \<ge> 0)"
proof (cases "sel_ints (all_scales n) = []")
  case True
  then show ?thesis by simp
next
  case False
  have "\<forall>x \<in> set (sel_ints (all_scales n)). 0 \<le> x \<and> x < n"
    by (auto simp: set_sel_ints set_all_scales set_range_int)
  with range_assert_iff [OF False, of n] show ?thesis by blast
qed

lemma forward_band_pyr_size:
  "forward_band T (P\<lparr>pyr_size := ps\<rparr>) l a h = forward_band T P l a h"
  by (simp add: forward_band_def Let_def cong: if_cong)

lemma forward_bands_pyr_size:
  "forward_bands T (P\<lparr>pyr_size := ps\<rparr>) i l h bs st = forward_bands T P i l h bs st"
  by (induction bs arbitrary: st)
     (simp_all add: forward_band_pyr_size split_beta cong: sum.case_cong)

lemma forward_scale_pyr_size:
  "forward_scale T (P\<lparr>pyr_size := ps\<rparr>) scs i st = forward_scale T P scs i st"
  by (simp add: forward_scale_def forward_bands_pyr_size Let_def
      cong: sum.case_cong if_cong)

lemma forward_scales_pyr_size:
  "forward_scales T (P\<lparr>pyr_size := ps\<rparr>) scs js st = forward_scales T P scs js st"
  by (induction js arbitrary: st)
     (simp_all add: forward_scale_pyr_size cong: sum.case_cong)

lemma forward_highpass_pyr_size:
  "fst (forward_highpass T (P\<lparr>pyr_size := ps\<rparr>) scs imdft) = fst (forward_highpass T P scs imdft)"
  by (simp add: forward_highpass_def Let_def)

lemma forward_lowpass_pyr_size:
  "snd (forward_lowpass T (P\<lparr>pyr_size := ps\<rparr>) scs st) = snd (forward_lowpass T P scs st)"
  by (simp add: forward_lowpass_def Let_def)

text \<open>
  Claim C4. For a pyramid built by the constructor, every input \<open>x\<close> and every list
  \<open>S\<close> of scale selectors for which \<^verbatim>\<open>forward\<close> returns a dictionary, the call with
  the empty list (all scales) returns a dictionary too, and every key present in the first
  has the identical value in the second. The two calls may find the object in different
  states of \<open>pyr_size\<close> (the only attribute \<^verbatim>\<open>forward\<close> writes), so they may follow
  one another in either order. A valid subset \<open>S\<close> is a special case: validity of \<open>S\<close>
  is not needed beyond the call returning.
\<close>

theorem forward_subset_consistent:
  assumes init: "init N shp ht ord tw cplx down tight = Inr (ws, P0)"
      and run1: "forward T (P0\<lparr>pyr_size := ps\<rparr>) x (Seq S) = Inr (P1, d1)"
      and key: "map_of d1 k = Some v"
  shows "\<exists>P2 d2. forward T (P0\<lparr>pyr_size := ps'\<rparr>) x (Seq []) = Inr (P2, d2)
                 \<and> map_of d2 k = Some v"
proof -
  let ?P = "P0\<lparr>pyr_size := ps\<rparr>"
  let ?Q = "P0\<lparr>pyr_size := ps'\<rparr>"
  have Q: "?Q = ?P\<lparr>pyr_size := ps'\<rparr>" by simp
  from init_built [OF init] have bt: "built ?P" by simp
  then have sc: "scales ?P = all_scales (num_scales ?P)" by (simp add: built_def)
  define scs1 where "scs1 = (if S = [] then scales ?P else S)"
  define scs2 where "scs2 = scales ?P"
  define imdft where "imdft = t_fftshift T (t_fft2 T (fft_norm ?P) x)"
  define lodft where "lodft = t_mul T imdft (lo0mask ?P)"
  have hp2: "SStr residual_highpass \<in> set scs2" and lp2: "SStr residual_lowpass \<in> set scs2"
    and ints2: "\<forall>i \<in> set (range_int (num_scales ?P)). SInt i \<in> set scs2"
    unfolding scs2_def sc by (auto simp: set_all_scales)
  from run1 have nd: "t_ndim T x = 4"
    by (auto simp: forward_def Let_def split: if_splits)
  from run1 nd obtain st1
    where loop1: "forward_scales T ?P scs1 (range_int (num_scales ?P))
                    (lodft, forward_highpass T ?P scs1 imdft) = Inr st1"
      and res1: "(P1, d1) = forward_lowpass T ?P scs1 st1"
    unfolding forward_def scs1_def imdft_def lodft_def
    by (auto simp: Let_def split: if_splits sum.splits)
  obtain l' c1' s1' where st1: "st1 = (l', c1', s1')" by (cases st1) auto
  obtain h1 z1 where hp1: "forward_highpass T ?P scs1 imdft = (h1, z1)"
    by (cases "forward_highpass T ?P scs1 imdft")
  obtain h2 z2 where hpb: "forward_highpass T ?Q scs2 imdft = (h2, z2)"
    by (cases "forward_highpass T ?Q scs2 imdft")
  from forward_highpass_pyr_size [where T = T and P = "?P" and ps = ps' and scs = scs2 and imdft = imdft] hpb
  have h2: "fst (forward_highpass T ?P scs2 imdft) = h2" by simp
  from forward_highpass_le [OF hp2, of T ?P scs1 imdft] hp1 h2
  have le0: "map_of h1 \<subseteq>\<^sub>m map_of h2" and dom0: "dom (map_of h1) \<subseteq> {KStr residual_highpass}"
    by simp_all
  from dom0 have fresh0: "\<forall>i \<in> set (range_int (num_scales ?P)). \<forall>b. KBand i b \<notin> dom (map_of h1)"
    by auto
  from loop1 hp1 st1
  have loop1': "forward_scales T ?P scs1 (range_int (num_scales ?P)) (lodft, h1, z1)
                  = Inr (l', c1', s1')" by simp
  from forward_scales_sim [OF bt distinct_range_int subset_refl ints2 loop1' le0 fresh0, of z2]
  obtain c2' s2' where loop2: "forward_scales T ?P scs2 (range_int (num_scales ?P)) (lodft, h2, z2)
                  = Inr (l', c2', s2')"
    and le: "map_of c1' \<subseteq>\<^sub>m map_of c2'"
    and dom: "dom (map_of c1') \<subseteq> dom (map_of h1) \<union> {k. \<exists>i b. k = KBand i b}"
    by blast
  from forward_scales_pyr_size [where T = T and P = "?P" and ps = ps' and scs = scs2
      and js = "range_int (num_scales ?P)" and st = "(lodft, h2, z2)"] loop2
  have loop2': "forward_scales T ?Q scs2 (range_int (num_scales ?Q)) (lodft, h2, z2)
                  = Inr (l', c2', s2')" by simp
  from dom dom0
  have "dom (map_of c1') \<subseteq> {KStr residual_highpass} \<union> {k. \<exists>i b. k = KBand i b}"
    by blast
  moreover have "KStr residual_lowpass \<notin> {KStr residual_highpass} \<union> {k. \<exists>i b. k = KBand i b}"
    by simp
  ultimately have nolp: "KStr residual_lowpass \<notin> dom (map_of c1')" by blast
  define r2 where "r2 = forward_lowpass T ?Q scs2 (l', c2', s2')"
  from all_scales_in_range [of "num_scales ?P"] sc
  have chk: "sel_ints (scales ?Q) = [] \<or>
     (Max (set (sel_ints (scales ?Q))) < num_scales ?Q \<and> Min (set (sel_ints (scales ?Q))) \<ge> 0)"
    by simp
  have run2: "forward T ?Q x (Seq []) = Inr (fst r2, snd r2)"
    using chk nd loop2' hpb
    unfolding forward_def r2_def
    by (auto simp: Let_def scs2_def imdft_def lodft_def)
  from forward_lowpass_pyr_size [where T = T and P = "?P" and ps = ps' and scs = scs2
      and st = "(l', c2', s2')"]
  have r2': "snd r2 = snd (forward_lowpass T ?P scs2 (l', c2', s2'))"
    by (simp add: r2_def)
  from forward_lowpass_le [OF lp2 le nolp, of T ?P scs1 l' s1' s2'] res1 st1
  have "map_of d1 \<subseteq>\<^sub>m map_of (snd r2)"
    unfolding r2' by (simp add: snd_def split: prod.splits)
  with key have "map_of (snd r2) k = Some v"
    by (auto simp: map_le_def dom_def)
  with run2 show ?thesis by blast
qed

theorem forward_subset_consistent_witness:
  "init demo_numerics (16, 16) (Height 1) 1 1 False False False = Inr ([], demo_pyramid) \<and>
   forward demo_torch (demo_pyramid\<lparr>pyr_size := Map.empty\<rparr>) 5 (Seq [SInt 0])
     = Inr (demo_pyramid\<lparr>pyr_size := [KBand 0 0 \<mapsto> (1, 1), KBand 0 1 \<mapsto> (1, 1)]\<rparr>,
            [(KBand 0 0, 5), (KBand 0 1, 5)]) \<and>
   map_of [(KBand 0 0, 5), (KBand 0 1, 5 :: int)] (KBand 0 1) = Some 5 \<and>
   (\<exists>P2 d2. forward demo_torch
               (demo_pyramid\<lparr>pyr_size := [KBand 0 0 \<mapsto> (1, 1), KBand 0 1 \<mapsto> (1, 1)]\<rparr>) 5 (Seq [])
               = Inr (P2, d2)
            \<and> map_of d2 (KBand 0 1) = Some 5)"
proof -
  have run: "forward demo_torch (demo_pyramid\<lparr>pyr_size := Map.empty\<rparr>) 5 (Seq [SInt 0])
     = Inr (demo_pyramid\<lparr>pyr_size := [KBand 0 0 \<mapsto> (1, 1), KBand 0 1 \<mapsto> (1, 1)]\<rparr>,
            [(KBand 0 0, 5), (KBand 0 1, 5)])"
    by (simp add: forward_def forward_highpass_def forward_lowpass_def demo_torch_def
        demo_pyramid_def Let_def range_int_simps forward_scale_def py_nth_def
        residual_highpass_def residual_lowpass_def forward_band_def)
  have key: "map_of [(KBand 0 0, 5), (KBand 0 1, 5 :: int)] (KBand 0 1) = Some 5"
    by simp
  from forward_subset_consistent [OF demo_init run key,
       of "[KBand 0 0 \<mapsto> (1, 1), KBand 0 1 \<mapsto> (1, 1)]"] demo_init run key
  show ?thesis by simp
qed

section \<open>Reconstruction: the dictionary must be complete\<close>

text \<open>
  Claim C7. For a pyramid built by the constructor (in any later state of \<open>pyr_size\<close>)
  and every coefficient dictionary that lacks a key the pyramid defines (a pair of scale
  and orientation, or one of the two residuals), \<^verbatim>\<open>recon_pyr\<close> raises the error of its
  completeness check, whatever levels, bands and \<open>twidth\<close> are passed: the check comes
  first and nothing else is computed.
\<close>

theorem recon_pyr_incomplete:
  assumes "init N shp ht ord tw cplx down tight = Inr (ws, P0)"
      and "k \<in> set (pyramid_keys P0)" and "k \<notin> fst ` set d"
  shows "recon_pyr T (P0\<lparr>pyr_size := ps\<rparr>) d levels bands twidth = Inl missing_scale_error"
proof -
  let ?P = "P0\<lparr>pyr_size := ps\<rparr>"
  from init_built [OF assms(1)] have sc: "scales ?P = all_scales (num_scales P0)"
    by (simp add: built_def)
  have "check_scales ?P (map fst d) (scales ?P) \<noteq> None"
  proof
    assume none: "check_scales ?P (map fst d) (scales ?P) = None"
    from pyramid_keys_cases [OF assms(2)] have "k \<in> set (map fst d)"
    proof (elim disjE exE conjE)
      assume "k = KStr residual_highpass"
      with check_scales_None(1) [OF none, of residual_highpass] sc show ?thesis
        by (simp add: set_all_scales)
    next
      assume "k = KStr residual_lowpass"
      with check_scales_None(1) [OF none, of residual_lowpass] sc show ?thesis
        by (simp add: set_all_scales)
    next
      fix s b
      assume "k = KBand s b" "s \<in> set (range_int (num_scales P0))"
        "b \<in> set (range_int (num_orientations P0))"
      with check_scales_None(2) [OF none, of s b] sc show ?thesis
        by (simp add: set_all_scales)
    qed
    with assms(3) show False by simp
  qed
  with check_scales_result [of ?P "map fst d" "scales ?P"]
  have "check_scales ?P (map fst d) (scales ?P) = Some missing_scale_error" by blast
  then show ?thesis by (simp add: recon_pyr_def)
qed

theorem recon_pyr_incomplete_witness:
  "init demo_numerics (16, 16) (Height 1) 1 1 False False False = Inr ([], demo_pyramid) \<and>
   KBand 0 1 \<in> set (pyramid_keys demo_pyramid) \<and>
   KBand 0 1 \<notin> fst ` set [(KStr residual_highpass, 2::int), (KBand 0 0, 2), (KStr residual_lowpass, 2)] \<and>
   recon_pyr demo_torch (demo_pyramid\<lparr>pyr_size := Map.empty\<rparr>)
     [(KStr residual_highpass, 2), (KBand 0 0, 2), (KStr residual_lowpass, 2)]
     (LList [SInt 0]) (BList [0]) 1 = Inl missing_scale_error"
proof -
  have a: "KBand 0 1 \<in> set (pyramid_keys demo_pyramid)"
    by (simp add: pyramid_keys_def demo_pyramid_def range_int_simps)
  have b: "KBand 0 1 \<notin> fst ` set [(KStr residual_highpass, 2::int), (KBand 0 0, 2), (KStr residual_lowpass, 2)]"
    by simp
  from recon_pyr_incomplete [OF demo_init a b, of demo_torch Map.empty "LList [SInt 0]" "BList [0]" 1]
    demo_init a b
  show ?thesis by simp
qed

section \<open>Reconstruction and its \<open>twidth\<close> argument\<close>

text \<open>
  Claim C10. The result of \<^verbatim>\<open>recon_pyr\<close> does not depend on its \<^verbatim>\<open>twidth\<close>
  argument: for every pyramid, coefficient dictionary, selection of levels and bands and
  any two positive values \<open>t1\<close> and \<open>t2\<close>, the two calls return the same thing (the same
  raise, or the same warnings and the same tensor). The argument is compared with zero
  for a warning and not read again.
\<close>

theorem recon_pyr_twidth_irrelevant:
  "0 < t1 \<Longrightarrow> 0 < t2 \<Longrightarrow>
   recon_pyr T P d levels bands t1 = recon_pyr T P d levels bands t2"
  by (simp add: recon_pyr_def)

theorem recon_pyr_twidth_irrelevant_witness:
  "(0::real) < 1 \<and> (0::real) < 3 \<and>
   recon_pyr demo_torch demo_pyramid
     [(KStr residual_highpass, 2), (KBand 0 0, 2), (KBand 0 1, 3), (KStr residual_lowpass, 2)]
     (LOne (SStr ''all'')) BAll 1 = Inr ([], 5) \<and>
   recon_pyr demo_torch demo_pyramid
     [(KStr residual_highpass, 2), (KBand 0 0, 2), (KBand 0 1, 3), (KStr residual_lowpass, 2)]
     (LOne (SStr ''all'')) BAll 3 = Inr ([], 5)"
proof -
  have run: "recon_pyr demo_torch demo_pyramid
     [(KStr residual_highpass, 2), (KBand 0 0, 2), (KBand 0 1, 3), (KStr residual_lowpass, 2)]
     (LOne (SStr ''all'')) BAll 1 = Inr ([], 5)"
    by (simp add: recon_pyr_def demo_torch_def demo_pyramid_def py_get_def range_int_simps
        all_scales_def recon_keys_def recon_levels_check_def recon_bands_check_def Let_def
        level_keys_def recon_levels.simps py_nth_def residual_highpass_def residual_lowpass_def)
  have pos: "(0::real) < 1" "(0::real) < 3" by simp_all
  from recon_pyr_twidth_irrelevant [OF pos, of demo_torch demo_pyramid
     "[(KStr residual_highpass, 2), (KBand 0 0, 2), (KBand 0 1, 3), (KStr residual_lowpass, 2)]"
     "LOne (SStr ''all'')" BAll] run
  show ?thesis by simp
qed

section \<open>Steering: the keys of the two result dictionaries\<close>

text \<open>
  Claim C9. The claim puts the coefficient steered to the \<open>j\<close>-th target angle at scale
  \<open>i\<close> under the key \<open>(i, j)\<close>, with the weight dictionary using the same keys. On the
  code the weight is stored under \<open>(i, j)\<close> and the coefficient under
  \<open>(i, num_orientations + j)\<close>: for a pyramid with one scale and two orientations and a
  single target angle, the coefficient is under \<open>(0, 2)\<close> and the weight under \<open>(0, 0)\<close>.
\<close>

theorem steer_coeffs_keys_offset:
  "steer_coeffs demo_torch demo_steer demo_pyramid [(KBand 0 0, 2), (KBand 0 1, 3)] [1 / 2] True
     = Inr ([(KBand 0 2, 5)], [(KBand 0 0, 1)])"
  by (simp add: steer_coeffs_def demo_torch_def demo_steer_def demo_pyramid_def py_get_def
      range_int_simps)

section \<open>Dictionary to tensor and back\<close>

text \<open>
  Claim C8. The claim is that converting a dictionary of a pyramid without downsampling to
  a tensor and back gives the dictionary again, for either value of \<open>split_complex\<close>. On
  the code, a dictionary of real coefficients packed with \<open>split_complex = True\<close> keeps
  one channel per band (the packing looks at the dtype), while the unpacking reads two
  channels per band whenever \<open>split_complex\<close> is set: on the complete real dictionary
  of a pyramid with one scale and two orientations the second band finds a single channel
  left and the conversion back raises. With \<open>split_complex = False\<close> the same
  dictionary comes back unchanged.
\<close>

theorem pack_unpack_real_split_fails:
  "pack_unpack demo_real_coeffs True = Inl RuntimeError \<and>
   pack_unpack demo_real_coeffs False = Inr demo_real_coeffs"
  by (simp add: pack_unpack_def convert_pyr_to_tensor_def convert_tensor_to_pyr_def
      demo_real_coeffs_def demo_plane_def py_nth_def py_get_def Let_def tn_channel_def
      residual_highpass_def residual_lowpass_def complex_types_def place_residuals_def tn_cat_def
      promote_def tn_index_def tn_to_float_def tn_pair_as_complex_def)

end
